theory Spec2Isabelle
  imports Main "HOL-Library.Word"
begin

section \<open>FAHREN: parameter counting and the weight blob writer\<close>

text \<open>
  A shallow embedding of the two public operations of the FAHREN implementation file,
  \<^verbatim>\<open>fahren_init\<close> and \<^verbatim>\<open>fahren_write_random_weights\<close>, and of the header
  \<^verbatim>\<open>include/fahren/fahren.h\<close> they are written against.

  Machine model (LP64, the POSIX targets the file is written for): \<^verbatim>\<open>size_t\<close> and
  \<^verbatim>\<open>uint64_t\<close> are 64-bit words, \<^verbatim>\<open>int\<close> and \<^verbatim>\<open>uint32_t\<close> are 32-bit words,
  \<^verbatim>\<open>sizeof(float)\<close> is 4. A \<^verbatim>\<open>float\<close> is carried as its 4-byte object
  representation; its numeric value plays no part in what is proved here. Integers are
  written to the file least significant byte first.
\<close>

type_synonym size_t = "64 word"
type_synonym c_int = "32 word"
type_synonym uint32_t = "32 word"
type_synonym float_bits = "32 word"
type_synonym byte = "8 word"
type_synonym addr = nat

definition SIZE_MAX :: size_t where
  "SIZE_MAX = 0xFFFFFFFFFFFFFFFF"

definition sizeof_float :: size_t where
  "sizeof_float = 4"

subsection \<open>The header: status codes, layer descriptors, the model handle\<close>

definition FAHREN_VERSION_MAJOR :: uint32_t where "FAHREN_VERSION_MAJOR = 1"
definition FAHREN_VERSION_MINOR :: uint32_t where "FAHREN_VERSION_MINOR = 0"
definition FAHREN_VERSION_PATCH :: uint32_t where "FAHREN_VERSION_PATCH = 0"

datatype FAHRENStatus =
    FAHREN_SUCCESS
  | FAHREN_ERROR_INVALID_ARGUMENT
  | FAHREN_ERROR_NOT_INITIALIZED
  | FAHREN_ERROR_PROCESSING_FAILED

datatype FAHRENModelType = FAHREN_MODEL_SEQUENTIAL

datatype FAHRENLayerType = FAHREN_LAYER_DENSE | FAHREN_LAYER_CONVOLUTIONAL

text \<open>A pointer is an address or \<^verbatim>\<open>NULL\<close> (\<open>None\<close>).\<close>

record FAHRENLayer =
  density :: c_int
  previous_layer :: "addr option"
  layer_type :: FAHRENLayerType

record FAHREN =
  initialized :: c_int
  layer_count :: size_t
  model_type :: FAHRENModelType
  layers :: "addr option"

subsection \<open>Memory, file system and environment\<close>

text \<open>
  The state the operations read and change: the memory holding model handles, the memory
  holding layer descriptors (element \<open>i\<close> of an array at address \<open>b\<close> lives at
  \<open>b + i\<close>), the files by path, and the number of samples drawn so far from the
  process-wide random source. A non-null pointer handed in by the caller is taken to
  point to a live object, which is the caller's obligation in C.
\<close>

record world =
  handle_mem :: "addr \<Rightarrow> FAHREN"
  layer_mem :: "addr \<Rightarrow> FAHRENLayer"
  files :: "string \<Rightarrow> byte list option"
  rng_pos :: nat

text \<open>
  What the operations cannot decide themselves is given by the environment: the samples
  of the random source, whether \<^verbatim>\<open>malloc\<close> succeeds (by call site, 0 for the weight
  buffer and 1 for the bias buffer, and requested size in bytes), whether
  \<^verbatim>\<open>fopen(path, "wb")\<close> succeeds, how many items the \<open>k\<close>-th \<^verbatim>\<open>fwrite\<close> of a
  call manages to hand to the stream, how many of the bytes a stream has accepted have
  reached the file once \<^verbatim>\<open>fclose\<close> is through with it (given how many it accepted), and the
  indeterminate content of memory that was never stored to.
\<close>

record env =
  rng_stream :: "nat \<Rightarrow> float_bits"
  malloc_ok :: "nat \<Rightarrow> size_t \<Rightarrow> bool"
  fopen_ok :: "string \<Rightarrow> bool"
  fwrite_items :: "nat \<Rightarrow> nat \<Rightarrow> nat"
  flushed :: "nat \<Rightarrow> nat"
  uninit :: "nat \<Rightarrow> float_bits"

text \<open>
  An operation either returns a status or runs into undefined behaviour (a store outside
  an allocated buffer, a read through a null array pointer).
\<close>

datatype outcome = Returned FAHRENStatus | Undefined_Behaviour

subsection \<open>The counting pass (lines 109--124)\<close>

text \<open>The body of the loop: \<^verbatim>\<open>in_dim\<close>, \<^verbatim>\<open>out_dim\<close> and \<^verbatim>\<open>layer_weights\<close>, all
  \<^verbatim>\<open>size_t\<close>; the cast from \<^verbatim>\<open>int\<close> extends the sign.\<close>

definition layer_in_dim :: "(addr \<Rightarrow> FAHRENLayer) \<Rightarrow> FAHRENLayer \<Rightarrow> size_t" where
  "layer_in_dim m l =
     (case previous_layer l of
        None \<Rightarrow> 1
      | Some p \<Rightarrow> scast (density (m p)))"

definition layer_out_dim :: "FAHRENLayer \<Rightarrow> size_t" where
  "layer_out_dim l = scast (density l)"

definition layer_weights :: "(addr \<Rightarrow> FAHRENLayer) \<Rightarrow> FAHRENLayer \<Rightarrow> size_t" where
  "layer_weights m l =
     (let lw = layer_in_dim m l * layer_out_dim l
      in if layer_type l = FAHREN_LAYER_CONVOLUTIONAL then lw * 9 else lw)"

text \<open>The loop over the layers, with the running totals as accumulators.\<close>

fun count_loop ::
  "(addr \<Rightarrow> FAHRENLayer) \<Rightarrow> FAHRENLayer list \<Rightarrow> size_t \<Rightarrow> size_t
     \<Rightarrow> FAHRENStatus + size_t \<times> size_t" where
  "count_loop m [] total_weights total_biases = Inr (total_weights, total_biases)"
| "count_loop m (l # ls) total_weights total_biases =
     (if layer_weights m l > SIZE_MAX - total_weights
      then Inl FAHREN_ERROR_PROCESSING_FAILED
      else if layer_out_dim l > SIZE_MAX - total_biases
      then Inl FAHREN_ERROR_PROCESSING_FAILED
      else count_loop m ls (total_weights + layer_weights m l)
             (total_biases + layer_out_dim l))"

definition count_params ::
  "(addr \<Rightarrow> FAHRENLayer) \<Rightarrow> FAHRENLayer list \<Rightarrow> FAHRENStatus + size_t \<times> size_t" where
  "count_params m ls = count_loop m ls 0 0"

text \<open>The elements \<^verbatim>\<open>cm->layers[0]\<close> .. \<^verbatim>\<open>cm->layers[layer_count - 1]\<close> both loops
  walk; \<open>None\<close> when the array pointer is null and there is an element to read.\<close>

definition layer_array :: "world \<Rightarrow> FAHREN \<Rightarrow> FAHRENLayer list option" where
  "layer_array w h =
     (case layers h of
        None \<Rightarrow> if layer_count h = 0 then Some [] else None
      | Some b \<Rightarrow> Some (map (\<lambda>i. layer_mem w (b + i)) [0..<unat (layer_count h)]))"

subsection \<open>The fill pass (lines 126--155)\<close>

text \<open>A buffer cell is \<open>None\<close> until it is stored to. \<^verbatim>\<open>malloc(total * sizeof(float))\<close>
  multiplies in \<^verbatim>\<open>size_t\<close>; the block holds as many floats as fit in that many bytes.
  A total of 0 leaves the pointer null: no cell.\<close>

definition alloc_floats :: "size_t \<Rightarrow> float_bits option list" where
  "alloc_floats n =
     (if n > 0 then replicate (unat (n * sizeof_float) div 4) None else [])"

definition fahren_random_weight :: "env \<Rightarrow> nat \<Rightarrow> float_bits \<times> nat" where
  "fahren_random_weight e pos = (rng_stream e pos, Suc pos)"

text \<open>\<^verbatim>\<open>for (k = 0; k < n; ++k) buf[idx++] = fahren_random_weight();\<close> A store at or
  past the end of the buffer is undefined behaviour: \<open>None\<close>.\<close>

primrec store_run ::
  "env \<Rightarrow> nat \<Rightarrow> float_bits option list \<times> size_t \<times> nat
     \<Rightarrow> (float_bits option list \<times> size_t \<times> nat) option" where
  "store_run e 0 s = Some s"
| "store_run e (Suc n) s =
     (case s of (buf, idx, pos) \<Rightarrow>
        if unat idx < length buf
        then (case fahren_random_weight e pos of (v, pos') \<Rightarrow>
                store_run e n (buf[unat idx := Some v], idx + 1, pos'))
        else None)"

record fill_state =
  weights :: "float_bits option list"
  biases :: "float_bits option list"
  widx :: size_t
  bidx :: size_t
  pos :: nat

fun fill_loop ::
  "env \<Rightarrow> (addr \<Rightarrow> FAHRENLayer) \<Rightarrow> FAHRENLayer list \<Rightarrow> fill_state \<Rightarrow> fill_state option" where
  "fill_loop e m [] s = Some s"
| "fill_loop e m (l # ls) s =
     (case store_run e (unat (layer_weights m l)) (weights s, widx s, pos s) of
        None \<Rightarrow> None
      | Some (wbuf, wi, p1) \<Rightarrow>
          (case store_run e (unat (layer_out_dim l)) (biases s, bidx s, p1) of
             None \<Rightarrow> None
           | Some (bbuf, bi, p2) \<Rightarrow>
               fill_loop e m ls
                 \<lparr>weights = wbuf, biases = bbuf, widx = wi, bidx = bi, pos = p2\<rparr>))"

subsection \<open>The blob writer (lines 157--198)\<close>

text \<open>\<open>n\<close> bytes of a number, least significant first, and the number they hold.\<close>

primrec le_bytes :: "nat \<Rightarrow> nat \<Rightarrow> byte list" where
  "le_bytes 0 v = []"
| "le_bytes (Suc n) v = of_nat (v mod 256) # le_bytes n (v div 256)"

primrec le_val :: "byte list \<Rightarrow> nat" where
  "le_val [] = 0"
| "le_val (b # bs) = unat b + 256 * le_val bs"

definition u32_bytes :: "uint32_t \<Rightarrow> byte list" where
  "u32_bytes x = le_bytes 4 (unat x)"

definition u64_bytes :: "64 word \<Rightarrow> byte list" where
  "u64_bytes x = le_bytes 8 (unat x)"

definition magic :: uint32_t where
  "magic = 0x4641484E"

text \<open>The first \<open>n\<close> floats of a buffer as bytes, as \<^verbatim>\<open>fwrite(buf, sizeof(float), n, f)\<close>
  reads them; a cell never stored to has indeterminate content.\<close>

definition read_cell :: "env \<Rightarrow> float_bits option list \<Rightarrow> nat \<Rightarrow> float_bits" where
  "read_cell e buf i =
     (if i < length buf then (case buf ! i of Some v \<Rightarrow> v | None \<Rightarrow> uninit e i)
      else uninit e i)"

definition float_section :: "env \<Rightarrow> float_bits option list \<Rightarrow> nat \<Rightarrow> byte list" where
  "float_section e buf n = concat (map (\<lambda>i. u32_bytes (read_cell e buf i)) [0..<n])"

text \<open>The stream is buffered: \<^verbatim>\<open>fwrite\<close> hands bytes to the stream, and what has
  reached the file is settled when the stream is closed. The \<open>k\<close>-th
  \<^verbatim>\<open>fwrite(data, size, nmemb, f)\<close> of a call gives the number of items the stream accepted
  and the bytes the stream has accepted so far.\<close>

definition fwrite ::
  "env \<Rightarrow> nat \<Rightarrow> byte list \<Rightarrow> nat \<Rightarrow> nat \<Rightarrow> byte list \<Rightarrow> nat \<times> byte list" where
  "fwrite e k dat sz nmemb f =
     (let n = min nmemb (fwrite_items e k nmemb) in (n, f @ take (n * sz) dat))"

text \<open>The chain of \<^verbatim>\<open>if (fwrite(...) != nmemb) goto io_error;\<close>: the writes in order,
  stopping at the first that comes back short.\<close>

fun fwrite_seq ::
  "env \<Rightarrow> nat \<Rightarrow> (byte list \<times> nat \<times> nat) list \<Rightarrow> byte list \<Rightarrow> bool \<times> byte list" where
  "fwrite_seq e k [] f = (True, f)"
| "fwrite_seq e k ((dat, sz, nmemb) # cs) f =
     (case fwrite e k dat sz nmemb f of (r, f') \<Rightarrow>
        if r \<noteq> nmemb then (False, f') else fwrite_seq e (Suc k) cs f')"

text \<open>\<^verbatim>\<open>fclose(f)\<close> (lines 188 and 194): the file holds the bytes that got through, a
  prefix of what the stream accepted, all of it when the flush succeeds. Whether it did is
  the result of \<^verbatim>\<open>fclose\<close>, which the code does not look at.\<close>

definition fclose :: "env \<Rightarrow> byte list \<Rightarrow> byte list" where
  "fclose e accepted = take (flushed e (length accepted)) accepted"

definition blob_writes ::
  "env \<Rightarrow> size_t \<Rightarrow> size_t \<Rightarrow> fill_state \<Rightarrow> (byte list \<times> nat \<times> nat) list" where
  "blob_writes e total_weights total_biases s =
     [(u32_bytes magic, 4, 1),
      (u32_bytes FAHREN_VERSION_MAJOR, 4, 1),
      (u32_bytes FAHREN_VERSION_MINOR, 4, 1),
      (u32_bytes FAHREN_VERSION_PATCH, 4, 1),
      (u64_bytes total_weights, 8, 1),
      (u64_bytes total_biases, 8, 1)]
     @ (if total_weights > 0
        then [(float_section e (weights s) (unat total_weights), 4, unat total_weights)]
        else [])
     @ (if total_biases > 0
        then [(float_section e (biases s) (unat total_biases), 4, unat total_biases)]
        else [])"

subsection \<open>\<^verbatim>\<open>fahren_write_random_weights\<close> (lines 105--198)\<close>

definition write_blob ::
  "env \<Rightarrow> string \<Rightarrow> size_t \<Rightarrow> size_t \<Rightarrow> fill_state \<Rightarrow> world \<Rightarrow> outcome \<times> world" where
  "write_blob e path total_weights total_biases s w =
     (if \<not> fopen_ok e path then (Returned FAHREN_ERROR_PROCESSING_FAILED, w)
      else (case fwrite_seq e 0 (blob_writes e total_weights total_biases s) [] of
              (ok, accepted) \<Rightarrow>
                (Returned (if ok then FAHREN_SUCCESS else FAHREN_ERROR_PROCESSING_FAILED),
                 w\<lparr>files := (files w)(path := Some (fclose e accepted))\<rparr>)))"

definition fahren_write_random_weights ::
  "env \<Rightarrow> addr option \<Rightarrow> string option \<Rightarrow> world \<Rightarrow> outcome \<times> world" where
  "fahren_write_random_weights e cm path w =
     (case (cm, path) of
        (Some c, Some p) \<Rightarrow>
          if initialized (handle_mem w c) = 0
          then (Returned FAHREN_ERROR_NOT_INITIALIZED, w)
          else
            (case layer_array w (handle_mem w c) of
               None \<Rightarrow> (Undefined_Behaviour, w)
             | Some ls \<Rightarrow>
                 (case count_params (layer_mem w) ls of
                    Inl st \<Rightarrow> (Returned st, w)
                  | Inr (total_weights, total_biases) \<Rightarrow>
                      if total_weights > 0 \<and> \<not> malloc_ok e 0 (total_weights * sizeof_float)
                      then (Returned FAHREN_ERROR_PROCESSING_FAILED, w)
                      else if total_biases > 0 \<and> \<not> malloc_ok e 1 (total_biases * sizeof_float)
                      then (Returned FAHREN_ERROR_PROCESSING_FAILED, w)
                      else
                        (case fill_loop e (layer_mem w) ls
                                \<lparr>weights = alloc_floats total_weights,
                                 biases = alloc_floats total_biases,
                                 widx = 0, bidx = 0, pos = rng_pos w\<rparr> of
                           None \<Rightarrow> (Undefined_Behaviour, w)
                         | Some s \<Rightarrow>
                             write_blob e p total_weights total_biases s
                               (w\<lparr>rng_pos := pos s\<rparr>))))
      | _ \<Rightarrow> (Returned FAHREN_ERROR_INVALID_ARGUMENT, w))"

subsection \<open>\<^verbatim>\<open>fahren_init\<close> (lines 35--49)\<close>

text \<open>The four assignments to \<^verbatim>\<open>*cm\<close> (lines 39--43).\<close>

definition store_handle ::
  "addr \<Rightarrow> FAHRENModelType \<Rightarrow> size_t \<Rightarrow> addr option \<Rightarrow> world \<Rightarrow> world" where
  "store_handle c mt n ls w =
     w\<lparr>handle_mem := (handle_mem w)
         (c := (handle_mem w c)
            \<lparr>model_type := mt, layer_count := n, layers := ls, initialized := 1\<rparr>)\<rparr>"

text \<open>The status of the write of the initial weights is cast to \<^verbatim>\<open>void\<close>.\<close>

definition fahren_init ::
  "env \<Rightarrow> addr option \<Rightarrow> FAHRENModelType \<Rightarrow> size_t \<Rightarrow> addr option \<Rightarrow> world
     \<Rightarrow> outcome \<times> world" where
  "fahren_init e cm mt n ls w =
     (case cm of
        None \<Rightarrow> (Returned FAHREN_ERROR_INVALID_ARGUMENT, w)
      | Some c \<Rightarrow>
          if ls = None \<or> n = 0 then (Returned FAHREN_ERROR_INVALID_ARGUMENT, w)
          else
            (case fahren_write_random_weights e cm (Some ''fahren_initial_model.bin'')
                    (store_handle c mt n ls w) of
               (Undefined_Behaviour, w2) \<Rightarrow> (Undefined_Behaviour, w2)
             | (Returned st, w2) \<Rightarrow> (Returned FAHREN_SUCCESS, w2)))"

section \<open>The counts of the specification and the fill order\<close>

text \<open>
  What the specification says one layer contributes, in unbounded integers: the input
  dimension is the predecessor's density, or 1 without predecessor; the weight count is
  input dimension times density, times 9 for a Convolutional layer; the bias count is the
  density. They are what the counts of the code are compared with.
\<close>

definition spec_in_dim :: "(addr \<Rightarrow> FAHRENLayer) \<Rightarrow> FAHRENLayer \<Rightarrow> int" where
  "spec_in_dim m l =
     (case previous_layer l of None \<Rightarrow> 1 | Some p \<Rightarrow> sint (density (m p)))"

definition spec_layer_weights :: "(addr \<Rightarrow> FAHRENLayer) \<Rightarrow> FAHRENLayer \<Rightarrow> int" where
  "spec_layer_weights m l =
     spec_in_dim m l * sint (density l)
       * (if layer_type l = FAHREN_LAYER_CONVOLUTIONAL then 9 else 1)"

definition spec_layer_biases :: "FAHRENLayer \<Rightarrow> int" where
  "spec_layer_biases l = sint (density l)"

text \<open>
  The fill order (lines 141--155), as lists: the layers are taken in sequence order, each
  drawing the samples of its weight slice and then those of its bias slice from the random
  source, starting at sample \<open>p\<close>. \<open>weight_samples\<close> lists what goes into the weight
  buffer, slice after slice, and \<open>bias_samples\<close> what goes into the bias buffer. The fill
  pass is proved to leave exactly these lists in its buffers (\<open>fill_after_count_samples\<close>).
\<close>

fun weight_samples ::
  "env \<Rightarrow> (addr \<Rightarrow> FAHRENLayer) \<Rightarrow> FAHRENLayer list \<Rightarrow> nat \<Rightarrow> float_bits list" where
  "weight_samples e m [] p = []"
| "weight_samples e m (l # ls) p =
     map (rng_stream e) [p..<p + unat (layer_weights m l)]
     @ weight_samples e m ls (p + unat (layer_weights m l) + unat (layer_out_dim l))"

fun bias_samples ::
  "env \<Rightarrow> (addr \<Rightarrow> FAHRENLayer) \<Rightarrow> FAHRENLayer list \<Rightarrow> nat \<Rightarrow> float_bits list" where
  "bias_samples e m [] p = []"
| "bias_samples e m (l # ls) p =
     map (rng_stream e)
       [p + unat (layer_weights m l)..<p + unat (layer_weights m l) + unat (layer_out_dim l)]
     @ bias_samples e m ls (p + unat (layer_weights m l) + unat (layer_out_dim l))"

text \<open>A layer whose dimensions are not negative and whose weight count fits in
  \<^verbatim>\<open>size_t\<close>.\<close>

definition counts_fit :: "(addr \<Rightarrow> FAHRENLayer) \<Rightarrow> FAHRENLayer \<Rightarrow> bool" where
  "counts_fit m l =
     (0 \<le> spec_in_dim m l \<and> 0 \<le> sint (density l) \<and> spec_layer_weights m l < 2 ^ 64)"

text \<open>The number held by the \<open>n\<close> bytes at offset \<open>off\<close> of a file, as a reader of
  the blob on the same machine finds it.\<close>

definition blob_field :: "nat \<Rightarrow> nat \<Rightarrow> byte list \<Rightarrow> nat" where
  "blob_field off n bs = le_val (take n (drop off bs))"

section \<open>Concrete inputs\<close>

text \<open>A zeroed layer, as \<^verbatim>\<open>fahren_alloc_layers\<close> hands them out, fills the memory that
  the examples do not describe.\<close>

definition zero_layer :: FAHRENLayer where
  "zero_layer = \<lparr>density = 0, previous_layer = None, layer_type = FAHREN_LAYER_DENSE\<rparr>"

text \<open>The end-to-end scenario: two Dense layers, densities 3 and 2, the second one's
  predecessor being the first; the same two layers at another address; a handle that was
  never initialized.\<close>

definition dense32_mem :: "addr \<Rightarrow> FAHRENLayer" where
  "dense32_mem = (\<lambda>_. zero_layer)
     (0 := \<lparr>density = 3, previous_layer = None, layer_type = FAHREN_LAYER_DENSE\<rparr>,
      1 := \<lparr>density = 2, previous_layer = Some 0, layer_type = FAHREN_LAYER_DENSE\<rparr>)"

definition dense32_handle :: FAHREN where
  "dense32_handle = \<lparr>initialized = 1, layer_count = 2, model_type = FAHREN_MODEL_SEQUENTIAL,
     layers = Some 0\<rparr>"

definition dense32_world :: world where
  "dense32_world = \<lparr>handle_mem = (\<lambda>_. dense32_handle), layer_mem = dense32_mem,
     files = (\<lambda>_. None), rng_pos = 0\<rparr>"

definition dense32_mem_moved :: "addr \<Rightarrow> FAHRENLayer" where
  "dense32_mem_moved = (\<lambda>_. zero_layer)
     (10 := \<lparr>density = 3, previous_layer = None, layer_type = FAHREN_LAYER_DENSE\<rparr>,
      11 := \<lparr>density = 2, previous_layer = Some 10, layer_type = FAHREN_LAYER_DENSE\<rparr>)"

definition fresh_world :: world where
  "fresh_world = \<lparr>handle_mem = (\<lambda>_. \<lparr>initialized = 0, layer_count = 0,
        model_type = FAHREN_MODEL_SEQUENTIAL, layers = None\<rparr>),
     layer_mem = dense32_mem, files = (\<lambda>_. None), rng_pos = 0\<rparr>"

text \<open>A Dense layer of density 1431586686 followed by a Convolutional layer of density
  1431724848: \<open>9 * 1431586686 * 1431724848 = 2 ^ 64 + 11936\<close>.\<close>

definition wrap_layer0 :: FAHRENLayer where
  "wrap_layer0 = \<lparr>density = 1431586686, previous_layer = None, layer_type = FAHREN_LAYER_DENSE\<rparr>"

definition wrap_layer1 :: FAHRENLayer where
  "wrap_layer1 = \<lparr>density = 1431724848, previous_layer = Some 0,
     layer_type = FAHREN_LAYER_CONVOLUTIONAL\<rparr>"

definition wrap_world :: world where
  "wrap_world = \<lparr>handle_mem = (\<lambda>_. \<lparr>initialized = 1, layer_count = 2,
        model_type = FAHREN_MODEL_SEQUENTIAL, layers = Some 0\<rparr>),
     layer_mem = (\<lambda>_. zero_layer)(0 := wrap_layer0, 1 := wrap_layer1),
     files = (\<lambda>_. None), rng_pos = 0\<rparr>"

text \<open>Five Dense layers of density \<open>2 ^ 30\<close>, the last four with the first as
  predecessor: \<open>2 ^ 30 + 4 * 2 ^ 60\<close> weights.\<close>

definition big_layer0 :: FAHRENLayer where
  "big_layer0 = \<lparr>density = 1073741824, previous_layer = None,
     layer_type = FAHREN_LAYER_DENSE\<rparr>"

definition big_layer :: FAHRENLayer where
  "big_layer = \<lparr>density = 1073741824, previous_layer = Some 0,
     layer_type = FAHREN_LAYER_DENSE\<rparr>"

definition big_world :: world where
  "big_world = \<lparr>handle_mem = (\<lambda>_. \<lparr>initialized = 1, layer_count = 5,
        model_type = FAHREN_MODEL_SEQUENTIAL, layers = Some 0\<rparr>),
     layer_mem = (\<lambda>_. zero_layer)
       (0 := big_layer0, 1 := big_layer, 2 := big_layer, 3 := big_layer, 4 := big_layer),
     files = (\<lambda>_. None), rng_pos = 0\<rparr>"

text \<open>The memory of the five layers with a handle that was never initialized.\<close>

definition big_fresh_world :: world where
  "big_fresh_world = \<lparr>handle_mem = (\<lambda>_. \<lparr>initialized = 0, layer_count = 0,
        model_type = FAHREN_MODEL_SEQUENTIAL, layers = None\<rparr>),
     layer_mem = layer_mem big_world, files = (\<lambda>_. None), rng_pos = 0\<rparr>"

text \<open>An environment in which every allocation and every file operation succeeds; one in
  which \<^verbatim>\<open>malloc\<close> always fails; and one in which the stream accepts every byte but only
  16 bytes get through to the file before the flush inside \<^verbatim>\<open>fclose\<close> fails.\<close>

definition good_env :: env where
  "good_env = \<lparr>rng_stream = (\<lambda>k. of_nat k), malloc_ok = (\<lambda>_ _. True),
     fopen_ok = (\<lambda>_. True), fwrite_items = (\<lambda>_ n. n), flushed = (\<lambda>n. n),
     uninit = (\<lambda>_. 0)\<rparr>"

definition no_memory_env :: env where
  "no_memory_env = \<lparr>rng_stream = (\<lambda>k. of_nat k), malloc_ok = (\<lambda>_ _. False),
     fopen_ok = (\<lambda>_. True), fwrite_items = (\<lambda>_ n. n), flushed = (\<lambda>n. n),
     uninit = (\<lambda>_. 0)\<rparr>"

definition short_flush_env :: env where
  "short_flush_env = \<lparr>rng_stream = (\<lambda>k. of_nat k), malloc_ok = (\<lambda>_ _. True),
     fopen_ok = (\<lambda>_. True), fwrite_items = (\<lambda>_ n. n), flushed = (\<lambda>_. 16),
     uninit = (\<lambda>_. 0)\<rparr>"

section \<open>Arithmetic of \<^verbatim>\<open>size_t\<close>\<close>

lemma unat_SIZE_MAX: "unat SIZE_MAX = 2 ^ 64 - 1"
  by (simp add: SIZE_MAX_def)

lemma unat_size_t_lt: "unat (x :: size_t) < 2 ^ 64"
proof -
  have "unat x < 2 ^ LENGTH(64)" by (rule unsigned_less)
  then show ?thesis by simp
qed

lemma unat_SIZE_MAX_minus: "unat (SIZE_MAX - t) = 2 ^ 64 - 1 - unat t"
proof -
  have "t \<le> SIZE_MAX"
    using unat_size_t_lt [of t] by (simp add: word_le_nat_alt unat_SIZE_MAX)
  then have "unat (SIZE_MAX - t) = unat SIZE_MAX - unat t"
    by (rule unat_sub)
  then show ?thesis by (simp add: unat_SIZE_MAX)
qed

lemma wrap_add_iff:
  "(x > SIZE_MAX - t) = (2 ^ 64 \<le> unat t + unat x)"
  using unat_size_t_lt [of t]
  by (simp add: word_less_nat_alt unat_SIZE_MAX_minus) arith

lemma unat_add_no_wrap:
  "unat (t :: size_t) + unat x < 2 ^ 64 \<Longrightarrow> unat (t + x) = unat t + unat x"
proof -
  assume a: "unat t + unat x < 2 ^ 64"
  have "unat (t + x) = (unat t + unat x) mod 2 ^ 64"
    by (simp add: unat_word_ariths)
  with a show ?thesis by simp
qed

lemma no_wrap_add:
  "\<not> (x > SIZE_MAX - t) \<Longrightarrow> unat (t + x) = unat t + unat x"
  by (rule unat_add_no_wrap) (simp add: wrap_add_iff)

lemma unat_succ_idx:
  "unat (idx :: size_t) < n \<Longrightarrow> n < 2 ^ 64 \<Longrightarrow> unat (idx + 1) = Suc (unat idx)"
proof -
  assume a: "unat idx < n" "n < 2 ^ 64"
  then have "unat idx + unat (1 :: size_t) < 2 ^ 64" by simp
  then have "unat (idx + 1) = unat idx + unat (1 :: size_t)"
    by (rule unat_add_no_wrap)
  then show ?thesis by simp
qed

lemma uint_scast64: "uint (scast (d :: 32 word) :: 64 word) = sint d mod 2 ^ 64"
proof -
  have "uint (word_of_int (sint d) :: 64 word) = sint d mod 2 ^ LENGTH(64)"
    by (rule uint_word_of_int)
  then show ?thesis by (simp only: scast_eq len_num0 len_bit0 len_num1 One_nat_def) simp
qed

lemma uint_mult64: "uint (a * b :: size_t) = (uint a * uint b) mod 2 ^ 64"
  by (simp add: uint_word_ariths)

section \<open>The counting pass\<close>

text \<open>What one layer contributes, as integers: the casts and the products are taken
  modulo \<open>2 ^ 64\<close>.\<close>

lemma uint_layer_in_dim:
  "uint (layer_in_dim m l) =
     (case previous_layer l of None \<Rightarrow> 1 | Some p \<Rightarrow> sint (density (m p))) mod 2 ^ 64"
  by (simp add: layer_in_dim_def uint_scast64 split: option.split)

lemma uint_layer_out_dim: "uint (layer_out_dim l) = sint (density l) mod 2 ^ 64"
  by (simp add: layer_out_dim_def uint_scast64)

lemma uint_layer_weights:
  "uint (layer_weights m l) =
     ((case previous_layer l of None \<Rightarrow> 1 | Some p \<Rightarrow> sint (density (m p)))
        * sint (density l)
        * (if layer_type l = FAHREN_LAYER_CONVOLUTIONAL then 9 else 1)) mod 2 ^ 64"
proof -
  let ?i = "case previous_layer l of None \<Rightarrow> 1 | Some p \<Rightarrow> sint (density (m p))"
  have "uint (layer_in_dim m l * layer_out_dim l)
          = ((?i mod 2 ^ 64) * (sint (density l) mod 2 ^ 64)) mod 2 ^ 64"
    by (simp only: uint_mult64 uint_layer_in_dim layer_out_dim_def uint_scast64)
  then have io: "uint (layer_in_dim m l * layer_out_dim l) = (?i * sint (density l)) mod 2 ^ 64"
    by (simp only: mod_mult_eq)
  show ?thesis
  proof (cases "layer_type l = FAHREN_LAYER_CONVOLUTIONAL")
    case True
    then have "uint (layer_weights m l) = uint (layer_in_dim m l * layer_out_dim l * 9)"
      by (simp add: layer_weights_def)
    also have "\<dots> = (uint (layer_in_dim m l * layer_out_dim l) * uint (9 :: size_t)) mod 2 ^ 64"
      by (rule uint_mult64)
    also have "\<dots> = (((?i * sint (density l)) mod 2 ^ 64) * 9) mod 2 ^ 64"
      by (simp only: io) simp
    also have "\<dots> = (?i * sint (density l) * 9) mod 2 ^ 64"
      by (simp only: mod_mult_left_eq)
    finally show ?thesis using True by simp
  next
    case False
    then show ?thesis by (simp add: layer_weights_def io)
  qed
qed

lemma spec_counts_mod:
  "uint (layer_in_dim m l) = spec_in_dim m l mod 2 ^ 64"
  "uint (layer_out_dim l) = spec_layer_biases l mod 2 ^ 64"
  "uint (layer_weights m l) = spec_layer_weights m l mod 2 ^ 64"
  unfolding spec_in_dim_def spec_layer_biases_def spec_layer_weights_def
  by (rule uint_layer_in_dim uint_layer_out_dim uint_layer_weights)+

lemma sint32_lt: "sint (d :: 32 word) < 2 ^ 64"
proof -
  have "sint d < 2 ^ (LENGTH(32) - 1)" by (rule sint_lt)
  then show ?thesis by simp
qed

lemma spec_counts_exact:
  assumes "counts_fit m l"
  shows "uint (layer_weights m l) = spec_layer_weights m l"
    and "uint (layer_out_dim l) = spec_layer_biases l"
proof -
  from assms have a: "0 \<le> spec_in_dim m l" "0 \<le> sint (density l)"
    "spec_layer_weights m l < 2 ^ 64" by (simp_all add: counts_fit_def)
  have "0 \<le> spec_layer_weights m l" using a by (simp add: spec_layer_weights_def)
  with a(3) show "uint (layer_weights m l) = spec_layer_weights m l"
    by (simp add: spec_counts_mod)
  from a(2) sint32_lt [of "density l"] show "uint (layer_out_dim l) = spec_layer_biases l"
    by (simp add: spec_counts_mod spec_layer_biases_def)
qed

lemma dense_counts_fit:
  assumes "layer_type l = FAHREN_LAYER_DENSE" "0 \<le> spec_in_dim m l" "0 \<le> sint (density l)"
  shows "counts_fit m l"
proof -
  have i: "spec_in_dim m l < 2 ^ 31"
  proof (cases "previous_layer l")
    case None
    then show ?thesis by (simp add: spec_in_dim_def)
  next
    case (Some p)
    have "sint (density (m p)) < 2 ^ (LENGTH(32) - 1)" by (rule sint_lt)
    with Some show ?thesis by (simp add: spec_in_dim_def)
  qed
  have "sint (density l) < 2 ^ (LENGTH(32) - 1)" by (rule sint_lt)
  then have o: "sint (density l) < 2 ^ 31" by simp
  have "spec_in_dim m l * sint (density l) \<le> 2 ^ 31 * 2 ^ 31"
    using i o assms(2,3) by (intro mult_mono) simp_all
  then have "spec_layer_weights m l < 2 ^ 64"
    using assms(1) by (simp add: spec_layer_weights_def)
  with assms show ?thesis by (simp add: counts_fit_def)
qed

text \<open>The loop fails only with \<^verbatim>\<open>FAHREN_ERROR_PROCESSING_FAILED\<close>; when it returns
  totals, no addition has wrapped; when a sum of the per-layer values passes
  \<^verbatim>\<open>SIZE_MAX\<close>, it fails.\<close>

lemma count_loop_Inl:
  "count_loop m ls tw0 tb0 = Inl st \<Longrightarrow> st = FAHREN_ERROR_PROCESSING_FAILED"
  by (induction ls arbitrary: tw0 tb0) (simp_all split: if_splits)

lemma count_params_Inl:
  "count_params m ls = Inl st \<Longrightarrow> st = FAHREN_ERROR_PROCESSING_FAILED"
  unfolding count_params_def by (rule count_loop_Inl)

lemma count_loop_sums:
  "count_loop m ls tw0 tb0 = Inr (tw, tb) \<Longrightarrow>
     unat tw = unat tw0 + sum_list (map (\<lambda>l. unat (layer_weights m l)) ls) \<and>
     unat tb = unat tb0 + sum_list (map (\<lambda>l. unat (layer_out_dim l)) ls)"
proof (induction ls arbitrary: tw0 tb0)
  case Nil
  then show ?case by simp
next
  case (Cons l ls)
  from Cons.prems have a: "\<not> (layer_weights m l > SIZE_MAX - tw0)"
    and b: "\<not> (layer_out_dim l > SIZE_MAX - tb0)"
    and c: "count_loop m ls (tw0 + layer_weights m l) (tb0 + layer_out_dim l) = Inr (tw, tb)"
    by (simp_all split: if_splits)
  from Cons.IH [OF c] no_wrap_add [OF a] no_wrap_add [OF b] show ?case by simp
qed

lemma count_params_sums:
  "count_params m ls = Inr (tw, tb) \<Longrightarrow>
     unat tw = (\<Sum>l\<leftarrow>ls. unat (layer_weights m l)) \<and>
     unat tb = (\<Sum>l\<leftarrow>ls. unat (layer_out_dim l))"
  using count_loop_sums [of m ls 0 0 tw tb] by (simp add: count_params_def)

lemma sum_list_unat_exact:
  "(\<And>l. l \<in> set ls \<Longrightarrow> uint (f l) = g l) \<Longrightarrow>
     int (\<Sum>l\<leftarrow>ls. unat (f l)) = (\<Sum>l\<leftarrow>ls. g l)"
  by (induction ls) simp_all

lemma count_params_exact:
  assumes "count_params m ls = Inr (tw, tb)" and "list_all (counts_fit m) ls"
  shows "uint tw = (\<Sum>l\<leftarrow>ls. spec_layer_weights m l)"
    and "uint tb = (\<Sum>l\<leftarrow>ls. spec_layer_biases l)"
proof -
  note S = count_params_sums [OF assms(1)]
  from assms(2) have fit: "\<And>l. l \<in> set ls \<Longrightarrow> counts_fit m l" by (simp add: list_all_iff)
  have "uint tw = int (unat tw)" by (rule uint_nat)
  also have "\<dots> = int (\<Sum>l\<leftarrow>ls. unat (layer_weights m l))" using S by (simp only:)
  also have "\<dots> = (\<Sum>l\<leftarrow>ls. spec_layer_weights m l)"
    by (rule sum_list_unat_exact) (rule spec_counts_exact(1) [OF fit])
  finally show "uint tw = (\<Sum>l\<leftarrow>ls. spec_layer_weights m l)" .
  have "uint tb = int (unat tb)" by (rule uint_nat)
  also have "\<dots> = int (\<Sum>l\<leftarrow>ls. unat (layer_out_dim l))" using S by (simp only:)
  also have "\<dots> = (\<Sum>l\<leftarrow>ls. spec_layer_biases l)"
    by (rule sum_list_unat_exact) (rule spec_counts_exact(2) [OF fit])
  finally show "uint tb = (\<Sum>l\<leftarrow>ls. spec_layer_biases l)" .
qed

lemma count_loop_overflow:
  "2 ^ 64 \<le> unat tw0 + (\<Sum>l\<leftarrow>ls. unat (layer_weights m l)) \<or>
   2 ^ 64 \<le> unat tb0 + (\<Sum>l\<leftarrow>ls. unat (layer_out_dim l)) \<Longrightarrow>
     count_loop m ls tw0 tb0 = Inl FAHREN_ERROR_PROCESSING_FAILED"
proof (rule ccontr)
  assume ov: "2 ^ 64 \<le> unat tw0 + (\<Sum>l\<leftarrow>ls. unat (layer_weights m l)) \<or>
   2 ^ 64 \<le> unat tb0 + (\<Sum>l\<leftarrow>ls. unat (layer_out_dim l))"
  assume "count_loop m ls tw0 tb0 \<noteq> Inl FAHREN_ERROR_PROCESSING_FAILED"
  then obtain tw tb where r: "count_loop m ls tw0 tb0 = Inr (tw, tb)"
    by (cases "count_loop m ls tw0 tb0") (auto dest: count_loop_Inl)
  from count_loop_sums [OF r] unat_size_t_lt [of tw] unat_size_t_lt [of tb] ov
  show False by simp
qed

lemma count_loop_cong:
  "map (\<lambda>l. (layer_weights m l, layer_out_dim l)) ls
     = map (\<lambda>l. (layer_weights m' l, layer_out_dim l)) ls' \<Longrightarrow>
   count_loop m ls tw0 tb0 = count_loop m' ls' tw0 tb0"
proof (induction ls arbitrary: ls' tw0 tb0)
  case Nil
  then show ?case by simp
next
  case (Cons l ls)
  then obtain l' ls'' where ls': "ls' = l' # ls''" by (cases ls') simp_all
  with Cons.prems have hd: "layer_weights m l = layer_weights m' l'"
    "layer_out_dim l = layer_out_dim l'"
    and tl: "map (\<lambda>l. (layer_weights m l, layer_out_dim l)) ls
     = map (\<lambda>l. (layer_weights m' l, layer_out_dim l)) ls''"
    by simp_all
  from Cons.IH [OF tl] hd ls' show ?case by simp
qed

lemma layer_array_after:
  "layer_mem w' = layer_mem w \<Longrightarrow> layer_array w' h = layer_array w h"
  by (cases "layers h") (simp_all add: layer_array_def)

section \<open>The fill pass\<close>

text \<open>A run of \<open>n\<close> stores that stays inside the buffer advances the index and the
  random source by \<open>n\<close> and leaves the samples in the cells it passed; it stays inside
  exactly when the buffer has room.\<close>

lemma store_run_Suc:
  "store_run e (Suc n) (buf, idx, p) =
     (if unat idx < length buf
      then store_run e n (buf[unat idx := Some (rng_stream e p)], idx + 1, Suc p)
      else None)"
  by (simp add: fahren_random_weight_def)

lemma store_run_idx:
  "store_run e n (buf, idx, p) = Some (buf', idx', p') \<Longrightarrow>
   length buf < 2 ^ 64 \<Longrightarrow> unat idx \<le> length buf \<Longrightarrow>
     length buf' = length buf \<and> unat idx' = unat idx + n \<and> unat idx + n \<le> length buf \<and>
     p' = p + n"
proof (induction n arbitrary: buf idx p)
  case 0
  then show ?case by simp
next
  case (Suc n)
  from Suc.prems(1) have lt: "unat idx < length buf"
    unfolding store_run_Suc by (simp split: if_splits)
  with Suc.prems(1) have run:
    "store_run e n (buf[unat idx := Some (rng_stream e p)], idx + 1, Suc p) = Some (buf', idx', p')"
    unfolding store_run_Suc by simp
  have u: "unat (idx + 1) = Suc (unat idx)"
    using lt Suc.prems(2) by (rule unat_succ_idx)
  have b: "length (buf[unat idx := Some (rng_stream e p)]) < 2 ^ 64"
    using Suc.prems(2) by simp
  have c: "unat (idx + 1) \<le> length (buf[unat idx := Some (rng_stream e p)])"
    using lt u by simp
  from Suc.IH [OF run b c] u show ?case by simp
qed

lemma store_run_cells:
  "store_run e n (buf, idx, p) = Some (buf', idx', p') \<Longrightarrow>
   length buf < 2 ^ 64 \<Longrightarrow> unat idx \<le> length buf \<Longrightarrow> k < length buf \<Longrightarrow>
     buf' ! k =
        (if unat idx \<le> k \<and> k < unat idx + n then Some (rng_stream e (p + (k - unat idx)))
         else buf ! k)"
proof (induction n arbitrary: buf idx p)
  case 0
  then show ?case by auto
next
  case (Suc n)
  from Suc.prems(1) have lt: "unat idx < length buf"
    unfolding store_run_Suc by (simp split: if_splits)
  with Suc.prems(1) have run:
    "store_run e n (buf[unat idx := Some (rng_stream e p)], idx + 1, Suc p) = Some (buf', idx', p')"
    unfolding store_run_Suc by simp
  have u: "unat (idx + 1) = Suc (unat idx)"
    using lt Suc.prems(2) by (rule unat_succ_idx)
  have b: "length (buf[unat idx := Some (rng_stream e p)]) < 2 ^ 64"
    using Suc.prems(2) by simp
  have c: "unat (idx + 1) \<le> length (buf[unat idx := Some (rng_stream e p)])"
    using lt u by simp
  have d: "k < length (buf[unat idx := Some (rng_stream e p)])"
    using Suc.prems(4) by simp
  have kk: "buf' ! k =
        (if Suc (unat idx) \<le> k \<and> k < Suc (unat idx) + n
         then Some (rng_stream e (Suc p + (k - Suc (unat idx))))
         else buf[unat idx := Some (rng_stream e p)] ! k)"
    using Suc.IH [OF run b c d] by (simp only: u)
  show ?case
  proof (cases "k = unat idx")
    case True
    with kk lt show ?thesis by simp
  next
    case False
    show ?thesis
    proof (cases "Suc (unat idx) \<le> k \<and> k < Suc (unat idx) + n")
      case True
      then have "Suc p + (k - Suc (unat idx)) = p + (k - unat idx)" by arith
      moreover from True have "unat idx \<le> k \<and> k < unat idx + Suc n" by arith
      ultimately show ?thesis using kk True by (simp only: if_True simp_thms)
    next
      case F2: False
      with False have nn: "\<not> (unat idx \<le> k \<and> k < unat idx + Suc n)" by arith
      from kk F2 have "buf' ! k = buf[unat idx := Some (rng_stream e p)] ! k"
        by (simp only: if_False simp_thms)
      also have "\<dots> = buf ! k" using False by simp
      finally show ?thesis using nn by (simp only: if_False simp_thms)
    qed
  qed
qed

lemma store_run_take:
  assumes run: "store_run e n (buf, idx, p) = Some (buf', idx', p')"
    and len: "length buf < 2 ^ 64" and idx: "unat idx \<le> length buf"
  shows "take (unat idx') buf' = take (unat idx) buf @ map (\<lambda>j. Some (rng_stream e j)) [p..<p + n]"
proof (rule nth_equalityI)
  note I = store_run_idx [OF run len idx]
  show "length (take (unat idx') buf')
      = length (take (unat idx) buf @ map (\<lambda>j. Some (rng_stream e j)) [p..<p + n])"
    using I idx by simp
  fix k assume "k < length (take (unat idx') buf')"
  then have k: "k < unat idx + n" using I by simp
  then have kl: "k < length buf" using I by simp
  note C = store_run_cells [OF run len idx kl]
  have l: "take (unat idx') buf' ! k = buf' ! k" using k I by simp
  show "take (unat idx') buf' ! k
      = (take (unat idx) buf @ map (\<lambda>j. Some (rng_stream e j)) [p..<p + n]) ! k"
  proof (cases "k < unat idx")
    case True
    then have "(take (unat idx) buf @ map (\<lambda>j. Some (rng_stream e j)) [p..<p + n]) ! k = buf ! k"
      using idx by (simp add: nth_append)
    with True C l show ?thesis by simp
  next
    case False
    then have a: "unat idx \<le> k" by simp
    have "k - unat idx < n" using k a by arith
    then have "(take (unat idx) buf @ map (\<lambda>j. Some (rng_stream e j)) [p..<p + n]) ! k
        = Some (rng_stream e (p + (k - unat idx)))"
      using a idx by (simp add: nth_append)
    with a k C l show ?thesis by simp
  qed
qed

lemma store_run_ok:
  "unat idx + n \<le> length buf \<Longrightarrow> length buf < 2 ^ 64 \<Longrightarrow>
     \<exists>r. store_run e n (buf, idx, p) = Some r"
proof (induction n arbitrary: buf idx p)
  case 0
  then show ?case by simp
next
  case (Suc n)
  from Suc.prems(1) have lt: "unat idx < length buf" by simp
  have u: "unat (idx + 1) = Suc (unat idx)"
    using lt Suc.prems(2) by (rule unat_succ_idx)
  have a: "unat (idx + 1) + n \<le> length (buf[unat idx := Some (rng_stream e p)])"
    using Suc.prems(1) u by simp
  have b: "length (buf[unat idx := Some (rng_stream e p)]) < 2 ^ 64"
    using Suc.prems(2) by simp
  from Suc.IH [OF a b] lt show ?case unfolding store_run_Suc by simp
qed

lemma fill_loop_Cons_Some:
  "fill_loop e m (l # ls) s = Some s' \<Longrightarrow>
     \<exists>wbuf wi p1 bbuf bi p2.
       store_run e (unat (layer_weights m l)) (weights s, widx s, pos s) = Some (wbuf, wi, p1) \<and>
       store_run e (unat (layer_out_dim l)) (biases s, bidx s, p1) = Some (bbuf, bi, p2) \<and>
       fill_loop e m ls \<lparr>weights = wbuf, biases = bbuf, widx = wi, bidx = bi, pos = p2\<rparr>
         = Some s'"
  by (simp split: option.splits prod.splits)

lemma fill_loop_idx:
  "fill_loop e m ls s = Some s' \<Longrightarrow>
   length (weights s) < 2 ^ 64 \<Longrightarrow> unat (widx s) \<le> length (weights s) \<Longrightarrow>
   length (biases s) < 2 ^ 64 \<Longrightarrow> unat (bidx s) \<le> length (biases s) \<Longrightarrow>
     length (weights s') = length (weights s) \<and> length (biases s') = length (biases s) \<and>
     unat (widx s') = unat (widx s) + (\<Sum>l\<leftarrow>ls. unat (layer_weights m l)) \<and>
     unat (widx s') \<le> length (weights s) \<and>
     unat (bidx s') = unat (bidx s) + (\<Sum>l\<leftarrow>ls. unat (layer_out_dim l)) \<and>
     unat (bidx s') \<le> length (biases s) \<and>
     pos s' = pos s + (\<Sum>l\<leftarrow>ls. unat (layer_weights m l))
                + (\<Sum>l\<leftarrow>ls. unat (layer_out_dim l))"
proof (induction ls arbitrary: s)
  case Nil
  then show ?case by simp
next
  case (Cons l ls)
  from fill_loop_Cons_Some [OF Cons.prems(1)] obtain wbuf wi p1 bbuf bi p2 where
    w: "store_run e (unat (layer_weights m l)) (weights s, widx s, pos s) = Some (wbuf, wi, p1)"
    and b: "store_run e (unat (layer_out_dim l)) (biases s, bidx s, p1) = Some (bbuf, bi, p2)"
    and r: "fill_loop e m ls \<lparr>weights = wbuf, biases = bbuf, widx = wi, bidx = bi, pos = p2\<rparr>
         = Some s'"
    by blast
  let ?s1 = "\<lparr>weights = wbuf, biases = bbuf, widx = wi, bidx = bi, pos = p2\<rparr>"
  note W = store_run_idx [OF w Cons.prems(2) Cons.prems(3)]
  note B = store_run_idx [OF b Cons.prems(4) Cons.prems(5)]
  have i1: "length (weights ?s1) < 2 ^ 64" using W Cons.prems(2) by simp
  have i2: "unat (widx ?s1) \<le> length (weights ?s1)" using W by simp
  have i3: "length (biases ?s1) < 2 ^ 64" using B Cons.prems(4) by simp
  have i4: "unat (bidx ?s1) \<le> length (biases ?s1)" using B by simp
  note IH = Cons.IH [OF r i1 i2 i3 i4]
  from IH W B show ?case by simp
qed

lemma length_weight_samples:
  "length (weight_samples e m ls p) = (\<Sum>l\<leftarrow>ls. unat (layer_weights m l))"
  by (induction ls arbitrary: p) simp_all

lemma length_bias_samples:
  "length (bias_samples e m ls p) = (\<Sum>l\<leftarrow>ls. unat (layer_out_dim l))"
  by (induction ls arbitrary: p) simp_all

lemma fill_loop_take:
  "fill_loop e m ls s = Some s' \<Longrightarrow>
   length (weights s) < 2 ^ 64 \<Longrightarrow> unat (widx s) \<le> length (weights s) \<Longrightarrow>
   length (biases s) < 2 ^ 64 \<Longrightarrow> unat (bidx s) \<le> length (biases s) \<Longrightarrow>
     take (unat (widx s')) (weights s')
       = take (unat (widx s)) (weights s) @ map Some (weight_samples e m ls (pos s)) \<and>
     take (unat (bidx s')) (biases s')
       = take (unat (bidx s)) (biases s) @ map Some (bias_samples e m ls (pos s))"
proof (induction ls arbitrary: s)
  case Nil
  then show ?case by simp
next
  case (Cons l ls)
  from fill_loop_Cons_Some [OF Cons.prems(1)] obtain wbuf wi p1 bbuf bi p2 where
    w: "store_run e (unat (layer_weights m l)) (weights s, widx s, pos s) = Some (wbuf, wi, p1)"
    and b: "store_run e (unat (layer_out_dim l)) (biases s, bidx s, p1) = Some (bbuf, bi, p2)"
    and r: "fill_loop e m ls \<lparr>weights = wbuf, biases = bbuf, widx = wi, bidx = bi, pos = p2\<rparr>
         = Some s'"
    by blast
  let ?s1 = "\<lparr>weights = wbuf, biases = bbuf, widx = wi, bidx = bi, pos = p2\<rparr>"
  note W = store_run_idx [OF w Cons.prems(2) Cons.prems(3)]
  note B = store_run_idx [OF b Cons.prems(4) Cons.prems(5)]
  note TW = store_run_take [OF w Cons.prems(2) Cons.prems(3)]
  note TB = store_run_take [OF b Cons.prems(4) Cons.prems(5)]
  have i1: "length (weights ?s1) < 2 ^ 64" using W Cons.prems(2) by simp
  have i2: "unat (widx ?s1) \<le> length (weights ?s1)" using W by simp
  have i3: "length (biases ?s1) < 2 ^ 64" using B Cons.prems(4) by simp
  have i4: "unat (bidx ?s1) \<le> length (biases ?s1)" using B by simp
  note IH = Cons.IH [OF r i1 i2 i3 i4]
  have p1: "p1 = pos s + unat (layer_weights m l)" using W by simp
  have p2: "p2 = pos s + unat (layer_weights m l) + unat (layer_out_dim l)" using W B by simp
  have "take (unat (widx s')) (weights s')
      = take (unat wi) wbuf @ map Some (weight_samples e m ls p2)" using IH by simp
  also have "\<dots> = take (unat (widx s)) (weights s)
      @ map Some (weight_samples e m (l # ls) (pos s))"
    by (simp add: TW p2 comp_def)
  finally have A: "take (unat (widx s')) (weights s')
      = take (unat (widx s)) (weights s) @ map Some (weight_samples e m (l # ls) (pos s))" .
  have "take (unat (bidx s')) (biases s')
      = take (unat bi) bbuf @ map Some (bias_samples e m ls p2)" using IH by simp
  also have "\<dots> = take (unat (bidx s)) (biases s)
      @ map Some (bias_samples e m (l # ls) (pos s))"
    by (simp add: TB p1 p2 comp_def)
  finally have B': "take (unat (bidx s')) (biases s')
      = take (unat (bidx s)) (biases s) @ map Some (bias_samples e m (l # ls) (pos s))" .
  from A B' show ?case by simp
qed

lemma fill_loop_filled:
  "fill_loop e m ls s = Some s' \<Longrightarrow>
   length (weights s) < 2 ^ 64 \<Longrightarrow> unat (widx s) \<le> length (weights s) \<Longrightarrow>
   length (biases s) < 2 ^ 64 \<Longrightarrow> unat (bidx s) \<le> length (biases s) \<Longrightarrow>
   (\<forall>k < unat (widx s). \<exists>j. p0 \<le> j \<and> j < pos s \<and> weights s ! k = Some (rng_stream e j)) \<Longrightarrow>
   (\<forall>k < unat (bidx s). \<exists>j. p0 \<le> j \<and> j < pos s \<and> biases s ! k = Some (rng_stream e j)) \<Longrightarrow>
   p0 \<le> pos s \<Longrightarrow>
     (\<forall>k < unat (widx s'). \<exists>j. p0 \<le> j \<and> j < pos s' \<and> weights s' ! k = Some (rng_stream e j)) \<and>
     (\<forall>k < unat (bidx s'). \<exists>j. p0 \<le> j \<and> j < pos s' \<and> biases s' ! k = Some (rng_stream e j))"
proof (induction ls arbitrary: s)
  case Nil
  then show ?case by simp
next
  case (Cons l ls)
  from fill_loop_Cons_Some [OF Cons.prems(1)] obtain wbuf wi p1 bbuf bi p2 where
    w: "store_run e (unat (layer_weights m l)) (weights s, widx s, pos s) = Some (wbuf, wi, p1)"
    and b: "store_run e (unat (layer_out_dim l)) (biases s, bidx s, p1) = Some (bbuf, bi, p2)"
    and r: "fill_loop e m ls \<lparr>weights = wbuf, biases = bbuf, widx = wi, bidx = bi, pos = p2\<rparr>
         = Some s'"
    by blast
  let ?s1 = "\<lparr>weights = wbuf, biases = bbuf, widx = wi, bidx = bi, pos = p2\<rparr>"
  note W = store_run_idx [OF w Cons.prems(2) Cons.prems(3)]
  note B = store_run_idx [OF b Cons.prems(4) Cons.prems(5)]
  have i1: "length (weights ?s1) < 2 ^ 64" using W Cons.prems(2) by simp
  have i2: "unat (widx ?s1) \<le> length (weights ?s1)" using W by simp
  have i3: "length (biases ?s1) < 2 ^ 64" using B Cons.prems(4) by simp
  have i4: "unat (bidx ?s1) \<le> length (biases ?s1)" using B by simp
  have pp: "pos s \<le> p2" using W B by simp
  have i5: "\<forall>k < unat (widx ?s1). \<exists>j. p0 \<le> j \<and> j < pos ?s1 \<and>
              weights ?s1 ! k = Some (rng_stream e j)"
  proof (intro allI impI)
    fix k assume "k < unat (widx ?s1)"
    then have k: "k < unat (widx s) + unat (layer_weights m l)" using W by simp
    then have kl: "k < length (weights s)" using W by simp
    note c = store_run_cells [OF w Cons.prems(2) Cons.prems(3) kl]
    show "\<exists>j. p0 \<le> j \<and> j < pos ?s1 \<and> weights ?s1 ! k = Some (rng_stream e j)"
    proof (cases "unat (widx s) \<le> k")
      case True
      with c k have "wbuf ! k = Some (rng_stream e (pos s + (k - unat (widx s))))" by simp
      moreover have "pos s + (k - unat (widx s)) < p2" using W B k True by simp
      moreover have "p0 \<le> pos s + (k - unat (widx s))" using Cons.prems(8) by simp
      ultimately show ?thesis by auto
    next
      case False
      with c have same: "wbuf ! k = weights s ! k" by simp
      from False have "k < unat (widx s)" by simp
      with Cons.prems(6) obtain j where
        j: "p0 \<le> j" "j < pos s" "weights s ! k = Some (rng_stream e j)" by blast
      from j pp have "j < p2" by simp
      with same j show ?thesis by auto
    qed
  qed
  have i6: "\<forall>k < unat (bidx ?s1). \<exists>j. p0 \<le> j \<and> j < pos ?s1 \<and>
              biases ?s1 ! k = Some (rng_stream e j)"
  proof (intro allI impI)
    fix k assume "k < unat (bidx ?s1)"
    then have k: "k < unat (bidx s) + unat (layer_out_dim l)" using B by simp
    then have kl: "k < length (biases s)" using B by simp
    note c = store_run_cells [OF b Cons.prems(4) Cons.prems(5) kl]
    show "\<exists>j. p0 \<le> j \<and> j < pos ?s1 \<and> biases ?s1 ! k = Some (rng_stream e j)"
    proof (cases "unat (bidx s) \<le> k")
      case True
      with c k have "bbuf ! k = Some (rng_stream e (p1 + (k - unat (bidx s))))" by simp
      moreover have "p1 + (k - unat (bidx s)) < p2" using B k True by simp
      moreover have "p0 \<le> p1 + (k - unat (bidx s))" using Cons.prems(8) W by simp
      ultimately show ?thesis by auto
    next
      case False
      with c have same: "bbuf ! k = biases s ! k" by simp
      from False have "k < unat (bidx s)" by simp
      with Cons.prems(7) obtain j where
        j: "p0 \<le> j" "j < pos s" "biases s ! k = Some (rng_stream e j)" by blast
      from j pp have "j < p2" by simp
      with same j show ?thesis by auto
    qed
  qed
  have i7: "p0 \<le> pos ?s1" using pp Cons.prems(8) by simp
  show ?case by (rule Cons.IH [OF r i1 i2 i3 i4 i5 i6 i7])
qed

lemma fill_loop_ok:
  "length (weights s) < 2 ^ 64 \<Longrightarrow> length (biases s) < 2 ^ 64 \<Longrightarrow>
   unat (widx s) + (\<Sum>l\<leftarrow>ls. unat (layer_weights m l)) \<le> length (weights s) \<Longrightarrow>
   unat (bidx s) + (\<Sum>l\<leftarrow>ls. unat (layer_out_dim l)) \<le> length (biases s) \<Longrightarrow>
     \<exists>s'. fill_loop e m ls s = Some s'"
proof (induction ls arbitrary: s)
  case Nil
  then show ?case by simp
next
  case (Cons l ls)
  have w1: "unat (widx s) + unat (layer_weights m l) \<le> length (weights s)"
    using Cons.prems(3) by simp
  have b1: "unat (bidx s) + unat (layer_out_dim l) \<le> length (biases s)"
    using Cons.prems(4) by simp
  from store_run_ok [OF w1 Cons.prems(1)] obtain wbuf wi p1 where
    w: "store_run e (unat (layer_weights m l)) (weights s, widx s, pos s) = Some (wbuf, wi, p1)"
    by (metis prod_cases3)
  from store_run_ok [OF b1 Cons.prems(2)] obtain bbuf bi p2 where
    b: "store_run e (unat (layer_out_dim l)) (biases s, bidx s, p1) = Some (bbuf, bi, p2)"
    by (metis prod_cases3)
  have wi: "unat (widx s) \<le> length (weights s)" using w1 by simp
  have bi: "unat (bidx s) \<le> length (biases s)" using b1 by simp
  note W = store_run_idx [OF w Cons.prems(1) wi]
  note B = store_run_idx [OF b Cons.prems(2) bi]
  let ?s1 = "\<lparr>weights = wbuf, biases = bbuf, widx = wi, bidx = bi, pos = p2\<rparr>"
  have "\<exists>s'. fill_loop e m ls ?s1 = Some s'"
  proof (rule Cons.IH)
    show "length (weights ?s1) < 2 ^ 64" using W Cons.prems(1) by simp
    show "length (biases ?s1) < 2 ^ 64" using B Cons.prems(2) by simp
    show "unat (widx ?s1) + (\<Sum>l\<leftarrow>ls. unat (layer_weights m l)) \<le> length (weights ?s1)"
      using W Cons.prems(3) by simp
    show "unat (bidx ?s1) + (\<Sum>l\<leftarrow>ls. unat (layer_out_dim l)) \<le> length (biases ?s1)"
      using B Cons.prems(4) by simp
  qed
  with w b show ?case by simp
qed

text \<open>The buffers: \<^verbatim>\<open>total * sizeof(float)\<close> wraps from \<open>2 ^ 62\<close> floats on.\<close>

lemma unat_times_sizeof: "unat (n * sizeof_float) = (unat n * 4) mod 2 ^ 64"
  by (simp add: sizeof_float_def unat_word_ariths)

lemma length_alloc_floats: "length (alloc_floats n) = ((unat n * 4) mod 2 ^ 64) div 4"
proof (cases "n = 0")
  case True
  then show ?thesis by (simp add: alloc_floats_def)
next
  case False
  then have "n > 0" by (simp add: word_greater_zero_iff)
  then show ?thesis by (simp add: alloc_floats_def unat_times_sizeof)
qed

lemma length_alloc_floats_lt: "length (alloc_floats n) < 2 ^ 64"
proof -
  have "((unat n * 4) mod 2 ^ 64) div 4 \<le> (unat n * 4) mod 2 ^ 64" by (rule div_le_dividend)
  also have "\<dots> < 2 ^ 64" by simp
  finally show ?thesis by (simp only: length_alloc_floats)
qed

lemma length_alloc_floats_small:
  "unat n < 2 ^ 62 \<Longrightarrow> length (alloc_floats n) = unat n"
  by (simp add: length_alloc_floats)

text \<open>After a counting pass that returned totals, a fill pass that stays inside its
  buffers ends with both indices at the totals and every cell below them holding a sample
  drawn in this pass; below \<open>2 ^ 62\<close> floats per buffer it always stays inside.\<close>

lemma fill_after_count:
  assumes cnt: "count_params m ls = Inr (tw, tb)"
    and fill: "fill_loop e m ls
        \<lparr>weights = alloc_floats tw, biases = alloc_floats tb,
         widx = 0, bidx = 0, pos = p0\<rparr> = Some s"
  shows "widx s = tw \<and> bidx s = tb \<and>
     length (weights s) = length (alloc_floats tw) \<and>
     length (biases s) = length (alloc_floats tb) \<and>
     unat tw \<le> length (weights s) \<and> unat tb \<le> length (biases s) \<and>
     pos s = p0 + unat tw + unat tb \<and>
     (\<forall>k < unat tw. \<exists>j. p0 \<le> j \<and> j < pos s \<and> weights s ! k = Some (rng_stream e j)) \<and>
     (\<forall>k < unat tb. \<exists>j. p0 \<le> j \<and> j < pos s \<and> biases s ! k = Some (rng_stream e j))"
proof -
  let ?s0 = "\<lparr>weights = alloc_floats tw, biases = alloc_floats tb,
         widx = 0, bidx = 0, pos = p0\<rparr>"
  have a1: "length (weights ?s0) < 2 ^ 64" using length_alloc_floats_lt [of tw] by simp
  have a2: "unat (widx ?s0) \<le> length (weights ?s0)" by simp
  have a3: "length (biases ?s0) < 2 ^ 64" using length_alloc_floats_lt [of tb] by simp
  have a4: "unat (bidx ?s0) \<le> length (biases ?s0)" by simp
  note I = fill_loop_idx [OF fill a1 a2 a3 a4]
  note S = count_params_sums [OF cnt]
  have uw: "unat (widx s) = unat tw" using I S by simp
  have ub: "unat (bidx s) = unat tb" using I S by simp
  have a5: "\<forall>k < unat (widx ?s0). \<exists>j. p0 \<le> j \<and> j < pos ?s0 \<and>
              weights ?s0 ! k = Some (rng_stream e j)" by simp
  have a6: "\<forall>k < unat (bidx ?s0). \<exists>j. p0 \<le> j \<and> j < pos ?s0 \<and>
              biases ?s0 ! k = Some (rng_stream e j)" by simp
  have a7: "p0 \<le> pos ?s0" by simp
  note F = fill_loop_filled [OF fill a1 a2 a3 a4 a5 a6 a7]
  have w: "widx s = tw" using uw by (simp add: word_unat_eq_iff)
  have b: "bidx s = tb" using ub by (simp add: word_unat_eq_iff)
  have l1: "length (weights s) = length (alloc_floats tw)" using I by simp
  have l2: "length (biases s) = length (alloc_floats tb)" using I by simp
  have l3: "unat tw \<le> length (weights s)" using I uw l1 by simp
  have l4: "unat tb \<le> length (biases s)" using I ub l2 by simp
  have l5: "pos s = p0 + unat tw + unat tb" using I S by simp
  from F [unfolded uw ub] have
    f1: "\<forall>k < unat tw. \<exists>j. p0 \<le> j \<and> j < pos s \<and> weights s ! k = Some (rng_stream e j)"
    and f2: "\<forall>k < unat tb. \<exists>j. p0 \<le> j \<and> j < pos s \<and> biases s ! k = Some (rng_stream e j)"
    by blast+
  from w b l1 l2 l3 l4 l5 f1 f2 show ?thesis by blast
qed

lemma read_cells_take:
  assumes "take n buf = map Some vs" and "n \<le> length buf"
  shows "map (read_cell e buf) [0..<n] = vs"
proof (rule nth_equalityI)
  from assms have lv: "length vs = n" by (metis length_map length_take min.absorb2)
  then show "length (map (read_cell e buf) [0..<n]) = length vs" by simp
  fix k assume "k < length (map (read_cell e buf) [0..<n])"
  then have k: "k < n" by simp
  then have "buf ! k = take n buf ! k" by simp
  also have "\<dots> = Some (vs ! k)" using assms(1) k lv by simp
  finally have "buf ! k = Some (vs ! k)" .
  with k assms(2) show "map (read_cell e buf) [0..<n] ! k = vs ! k"
    by (simp add: read_cell_def)
qed

lemma fill_after_count_samples:
  assumes cnt: "count_params m ls = Inr (tw, tb)"
    and fill: "fill_loop e m ls
        \<lparr>weights = alloc_floats tw, biases = alloc_floats tb,
         widx = 0, bidx = 0, pos = p0\<rparr> = Some s"
  shows "map (read_cell e (weights s)) [0..<unat tw] = weight_samples e m ls p0 \<and>
     map (read_cell e (biases s)) [0..<unat tb] = bias_samples e m ls p0 \<and>
     length (weight_samples e m ls p0) = unat tw \<and>
     length (bias_samples e m ls p0) = unat tb"
proof -
  let ?s0 = "\<lparr>weights = alloc_floats tw, biases = alloc_floats tb,
         widx = 0, bidx = 0, pos = p0\<rparr>"
  have a1: "length (weights ?s0) < 2 ^ 64" using length_alloc_floats_lt [of tw] by simp
  have a2: "unat (widx ?s0) \<le> length (weights ?s0)" by simp
  have a3: "length (biases ?s0) < 2 ^ 64" using length_alloc_floats_lt [of tb] by simp
  have a4: "unat (bidx ?s0) \<le> length (biases ?s0)" by simp
  note T = fill_loop_take [OF fill a1 a2 a3 a4]
  note F = fill_after_count [OF cnt fill]
  note S = count_params_sums [OF cnt]
  from F have w: "widx s = tw" and b: "bidx s = tb"
    and lw: "unat tw \<le> length (weights s)" and lb: "unat tb \<le> length (biases s)" by blast+
  from T w have tw: "take (unat tw) (weights s) = map Some (weight_samples e m ls p0)" by simp
  from T b have tb: "take (unat tb) (biases s) = map Some (bias_samples e m ls p0)" by simp
  from read_cells_take [OF tw lw] read_cells_take [OF tb lb] S show ?thesis
    by (simp add: length_weight_samples length_bias_samples)
qed

lemma fill_pass_complete:
  assumes cnt: "count_params m ls = Inr (tw, tb)"
    and small: "unat tw < 2 ^ 62" "unat tb < 2 ^ 62"
  shows "\<exists>s. fill_loop e m ls
        \<lparr>weights = alloc_floats tw, biases = alloc_floats tb,
         widx = 0, bidx = 0, pos = p0\<rparr> = Some s \<and>
     widx s = tw \<and> bidx s = tb \<and>
     length (weights s) = unat tw \<and> length (biases s) = unat tb \<and>
     (\<forall>k < unat tw. weights s ! k \<noteq> None) \<and> (\<forall>k < unat tb. biases s ! k \<noteq> None)"
proof -
  note S = count_params_sums [OF cnt]
  let ?s0 = "\<lparr>weights = alloc_floats tw, biases = alloc_floats tb,
         widx = 0, bidx = 0, pos = p0\<rparr>"
  have "\<exists>s. fill_loop e m ls ?s0 = Some s"
  proof (rule fill_loop_ok)
    show "length (weights ?s0) < 2 ^ 64" using length_alloc_floats_lt [of tw] by simp
    show "length (biases ?s0) < 2 ^ 64" using length_alloc_floats_lt [of tb] by simp
    show "unat (widx ?s0) + (\<Sum>l\<leftarrow>ls. unat (layer_weights m l)) \<le> length (weights ?s0)"
      using S length_alloc_floats_small [OF small(1)] by simp
    show "unat (bidx ?s0) + (\<Sum>l\<leftarrow>ls. unat (layer_out_dim l)) \<le> length (biases ?s0)"
      using S length_alloc_floats_small [OF small(2)] by simp
  qed
  then obtain s where s: "fill_loop e m ls ?s0 = Some s" ..
  note F = fill_after_count [OF cnt s]
  from F have "widx s = tw" "bidx s = tb" by blast+
  moreover from F have "length (weights s) = unat tw" "length (biases s) = unat tb"
    using length_alloc_floats_small [OF small(1)] length_alloc_floats_small [OF small(2)]
    by simp_all
  moreover from F have "\<forall>k < unat tw. weights s ! k \<noteq> None" by fastforce
  moreover from F have "\<forall>k < unat tb. biases s ! k \<noteq> None" by fastforce
  ultimately show ?thesis using s by blast
qed

section \<open>The blob writer\<close>

lemma length_le_bytes: "length (le_bytes n v) = n"
  by (induction n arbitrary: v) simp_all

lemma le_val_le_bytes: "le_val (le_bytes n v) = v mod 256 ^ n"
proof (induction n arbitrary: v)
  case 0
  then show ?case by simp
next
  case (Suc n)
  have "unat (of_nat (v mod 256) :: byte) = v mod 256"
    by (simp add: unat_of_nat)
  then have "le_val (le_bytes (Suc n) v) = v mod 256 + 256 * ((v div 256) mod 256 ^ n)"
    by (simp add: Suc.IH)
  also have "\<dots> = v mod 256 ^ Suc n"
    by (simp add: mod_mult2_eq)
  finally show ?case .
qed

lemma length_u32_bytes: "length (u32_bytes x) = 4"
  by (simp add: u32_bytes_def length_le_bytes)

lemma length_u64_bytes: "length (u64_bytes x) = 8"
  by (simp add: u64_bytes_def length_le_bytes)

lemma le_val_u64_bytes: "le_val (u64_bytes x) = unat x"
proof -
  have "unat x < 2 ^ 64" by (rule unat_size_t_lt)
  then show ?thesis by (simp add: u64_bytes_def le_val_le_bytes)
qed

lemma le_val_u32_bytes: "le_val (u32_bytes x) = unat x"
proof -
  have "unat x < 2 ^ LENGTH(32)" by (rule unsigned_less)
  then show ?thesis by (simp add: u32_bytes_def le_val_le_bytes)
qed

lemma length_concat_u32: "length (concat (map (\<lambda>i. u32_bytes (f i)) xs)) = 4 * length xs"
  by (induction xs) (simp_all add: length_u32_bytes)

lemma length_concat_u32_bytes: "length (concat (map u32_bytes xs)) = 4 * length xs"
  by (induction xs) (simp_all add: length_u32_bytes)

lemma length_float_section: "length (float_section e buf n) = 4 * n"
  by (simp add: float_section_def length_concat_u32)

lemma float_section_map:
  "float_section e buf n = concat (map u32_bytes (map (read_cell e buf) [0..<n]))"
  by (simp add: float_section_def comp_def)

lemma fwrite_seq_True:
  "fwrite_seq e k cs f = (True, c) \<Longrightarrow>
     c = f @ concat (map (\<lambda>(dat, sz, nmemb). take (nmemb * sz) dat) cs)"
proof (induction cs arbitrary: k f)
  case Nil
  then show ?case by simp
next
  case (Cons x cs)
  obtain dat sz nmemb where x: "x = (dat, sz, nmemb)" by (cases x)
  from Cons.prems x have full: "min nmemb (fwrite_items e k nmemb) = nmemb"
    and rest: "fwrite_seq e (Suc k) cs (f @ take (nmemb * sz) dat) = (True, c)"
    by (simp_all add: fwrite_def Let_def split: if_splits)
  from Cons.IH [OF rest] x show ?case by simp
qed

lemma fwrite_seq_ok:
  "(\<forall>k n. fwrite_items e k n \<ge> n) \<Longrightarrow> \<exists>c. fwrite_seq e k cs f = (True, c)"
proof (induction cs arbitrary: k f)
  case Nil
  then show ?case by simp
next
  case (Cons x cs)
  obtain dat sz nmemb where x: "x = (dat, sz, nmemb)" by (cases x)
  from Cons.prems have "min nmemb (fwrite_items e k nmemb) = nmemb" by (simp add: min_def)
  with Cons.IH [OF Cons.prems] x show ?case by (simp add: fwrite_def Let_def)
qed

lemma blob_content:
  "concat (map (\<lambda>(dat, sz, nmemb). take (nmemb * sz) dat) (blob_writes e tw tb s)) =
     u32_bytes magic @ u32_bytes FAHREN_VERSION_MAJOR @ u32_bytes FAHREN_VERSION_MINOR @
     u32_bytes FAHREN_VERSION_PATCH @ u64_bytes tw @ u64_bytes tb @
     float_section e (weights s) (unat tw) @ float_section e (biases s) (unat tb)"
proof -
  have z: "\<And>x :: size_t. \<not> 0 < x \<Longrightarrow> unat x = 0"
    by (simp add: word_greater_zero_iff)
  have fs0: "\<And>buf. float_section e buf 0 = []" by (simp add: float_section_def)
  show ?thesis
    by (simp add: blob_writes_def length_u32_bytes length_u64_bytes length_float_section z fs0
        mult.commute)
qed

lemma blob_fields:
  assumes "bs = u32_bytes a @ u32_bytes b @ u32_bytes c @ u32_bytes d @
                 u64_bytes x @ u64_bytes y @ rest"
  shows "blob_field 0 4 bs = unat a" "blob_field 4 4 bs = unat b"
    "blob_field 8 4 bs = unat c" "blob_field 12 4 bs = unat d"
    "blob_field 16 8 bs = unat x" "blob_field 24 8 bs = unat y"
    "drop 32 bs = rest"
  unfolding assms blob_field_def
  by (simp_all add: length_u32_bytes length_u64_bytes le_val_u32_bytes le_val_u64_bytes)

section \<open>\<^verbatim>\<open>fahren_write_random_weights\<close> as a whole\<close>

lemma write_blob_success:
  "write_blob e p tw tb s w = (Returned FAHREN_SUCCESS, w') \<Longrightarrow>
     \<exists>content. fopen_ok e p \<and> fwrite_seq e 0 (blob_writes e tw tb s) [] = (True, content) \<and>
       w' = w\<lparr>files := (files w)(p := Some (fclose e content))\<rparr>"
  by (auto simp: write_blob_def split: if_splits prod.splits)

lemma write_success_D:
  assumes "fahren_write_random_weights e cm path w = (Returned FAHREN_SUCCESS, w')"
  shows "\<exists>c p ls tw tb s content.
     cm = Some c \<and> path = Some p \<and> initialized (handle_mem w c) \<noteq> 0 \<and>
     layer_array w (handle_mem w c) = Some ls \<and>
     count_params (layer_mem w) ls = Inr (tw, tb) \<and>
     fill_loop e (layer_mem w) ls
        \<lparr>weights = alloc_floats tw, biases = alloc_floats tb,
         widx = 0, bidx = 0, pos = rng_pos w\<rparr> = Some s \<and>
     fopen_ok e p \<and>
     fwrite_seq e 0 (blob_writes e tw tb s) [] = (True, content) \<and>
     w' = w\<lparr>rng_pos := pos s, files := (files w)(p := Some (fclose e content))\<rparr>"
proof -
  from assms obtain c p where cp: "cm = Some c" "path = Some p"
    by (cases cm; cases path) (simp_all add: fahren_write_random_weights_def)
  from assms cp have ini: "initialized (handle_mem w c) \<noteq> 0"
    by (auto simp: fahren_write_random_weights_def)
  from assms cp ini obtain ls where ls: "layer_array w (handle_mem w c) = Some ls"
    by (cases "layer_array w (handle_mem w c)") (simp_all add: fahren_write_random_weights_def)
  from assms cp ini ls obtain tw tb where cnt: "count_params (layer_mem w) ls = Inr (tw, tb)"
    by (cases "count_params (layer_mem w) ls")
       (auto simp: fahren_write_random_weights_def dest: count_params_Inl split: if_splits)
  let ?s0 = "\<lparr>weights = alloc_floats tw, biases = alloc_floats tb,
         widx = 0, bidx = 0, pos = rng_pos w\<rparr>"
  from assms cp ini ls cnt obtain s where s: "fill_loop e (layer_mem w) ls ?s0 = Some s"
    by (cases "fill_loop e (layer_mem w) ls ?s0")
       (auto simp: fahren_write_random_weights_def split: if_splits)
  from assms cp ini ls cnt s have
    "write_blob e p tw tb s (w\<lparr>rng_pos := pos s\<rparr>) = (Returned FAHREN_SUCCESS, w')"
    by (auto simp: fahren_write_random_weights_def split: if_splits)
  from write_blob_success [OF this] obtain content where
    "fopen_ok e p" "fwrite_seq e 0 (blob_writes e tw tb s) [] = (True, content)"
    "w' = w\<lparr>rng_pos := pos s, files := (files w)(p := Some (fclose e content))\<rparr>"
    by auto
  with cp ini ls cnt s show ?thesis by blast
qed

lemma write_blob_memory:
  "write_blob e p tw tb s w = (r, w') \<Longrightarrow>
     handle_mem w' = handle_mem w \<and> layer_mem w' = layer_mem w"
  by (auto simp: write_blob_def split: if_splits prod.splits)

lemma write_keeps_memory:
  assumes "fahren_write_random_weights e cm path w = (r, w')"
  shows "handle_mem w' = handle_mem w \<and> layer_mem w' = layer_mem w"
proof (cases "\<exists>p tw tb s. write_blob e p tw tb s (w\<lparr>rng_pos := pos s\<rparr>) = (r, w')")
  case True
  then obtain p tw tb s where "write_blob e p tw tb s (w\<lparr>rng_pos := pos s\<rparr>) = (r, w')"
    by blast
  from write_blob_memory [OF this] show ?thesis by simp
next
  case False
  with assms have "w' = w"
    by (auto simp: fahren_write_random_weights_def
        split: option.splits sum.splits prod.splits if_splits)
  then show ?thesis by simp
qed

lemma fclose_all: "length bs \<le> flushed e (length bs) \<Longrightarrow> fclose e bs = bs"
  by (simp add: fclose_def)

lemma length_fclose: "length (fclose e bs) = min (length bs) (flushed e (length bs))"
  by (simp add: fclose_def)

text \<open>The bytes a successful call hands to the stream, and the file it leaves: the part of
  them that got through when the stream was closed.\<close>

lemma success_blob_layout:
  assumes "fahren_write_random_weights e cm path w = (Returned FAHREN_SUCCESS, w')"
  shows "\<exists>c p ls tw tb.
     cm = Some c \<and> path = Some p \<and> initialized (handle_mem w c) \<noteq> 0 \<and>
     layer_array w (handle_mem w c) = Some ls \<and>
     count_params (layer_mem w) ls = Inr (tw, tb) \<and>
     length (weight_samples e (layer_mem w) ls (rng_pos w)) = unat tw \<and>
     length (bias_samples e (layer_mem w) ls (rng_pos w)) = unat tb \<and>
     rng_pos w' = rng_pos w + unat tw + unat tb \<and>
     files w' p = Some (fclose e
       (u32_bytes magic @ u32_bytes FAHREN_VERSION_MAJOR @ u32_bytes FAHREN_VERSION_MINOR @
        u32_bytes FAHREN_VERSION_PATCH @ u64_bytes tw @ u64_bytes tb @
        concat (map u32_bytes (weight_samples e (layer_mem w) ls (rng_pos w))) @
        concat (map u32_bytes (bias_samples e (layer_mem w) ls (rng_pos w)))))"
proof -
  from write_success_D [OF assms] obtain c p ls tw tb s content where
    cp: "cm = Some c" "path = Some p" and ini: "initialized (handle_mem w c) \<noteq> 0"
    and ls: "layer_array w (handle_mem w c) = Some ls"
    and cnt: "count_params (layer_mem w) ls = Inr (tw, tb)"
    and fill: "fill_loop e (layer_mem w) ls
        \<lparr>weights = alloc_floats tw, biases = alloc_floats tb,
         widx = 0, bidx = 0, pos = rng_pos w\<rparr> = Some s"
    and wr: "fwrite_seq e 0 (blob_writes e tw tb s) [] = (True, content)"
    and w': "w' = w\<lparr>rng_pos := pos s, files := (files w)(p := Some (fclose e content))\<rparr>"
    by blast
  note F = fill_after_count [OF cnt fill]
  note G = fill_after_count_samples [OF cnt fill]
  from G have ws: "map (read_cell e (weights s)) [0..<unat tw]
      = weight_samples e (layer_mem w) ls (rng_pos w)"
    and bs: "map (read_cell e (biases s)) [0..<unat tb]
      = bias_samples e (layer_mem w) ls (rng_pos w)"
    and lw: "length (weight_samples e (layer_mem w) ls (rng_pos w)) = unat tw"
    and lb: "length (bias_samples e (layer_mem w) ls (rng_pos w)) = unat tb"
    by blast+
  have p': "rng_pos w' = rng_pos w + unat tw + unat tb" using F w' by simp
  have content: "content =
       u32_bytes magic @ u32_bytes FAHREN_VERSION_MAJOR @ u32_bytes FAHREN_VERSION_MINOR @
        u32_bytes FAHREN_VERSION_PATCH @ u64_bytes tw @ u64_bytes tb @
        concat (map u32_bytes (weight_samples e (layer_mem w) ls (rng_pos w))) @
        concat (map u32_bytes (bias_samples e (layer_mem w) ls (rng_pos w)))"
    using fwrite_seq_True [OF wr]
    by (simp only: blob_content float_section_map ws bs append_Nil)
  have fl: "files w' p = Some (fclose e content)" using w' by simp
  from cp ini ls cnt lw lb p' fl show ?thesis
    unfolding content
    by (intro exI [of _ c] exI [of _ p] exI [of _ ls] exI [of _ tw] exI [of _ tb]) simp
qed

text \<open>The image of a blob: 32 bytes of header, whose six fields read back as the magic
  constant, the version and the two counts, then the two sections.\<close>

lemma blob_image:
  assumes "length ws = unat tw" "length bs = unat tb"
    and "full = u32_bytes magic @ u32_bytes FAHREN_VERSION_MAJOR @
        u32_bytes FAHREN_VERSION_MINOR @ u32_bytes FAHREN_VERSION_PATCH @
        u64_bytes tw @ u64_bytes tb @ concat (map u32_bytes ws) @ concat (map u32_bytes bs)"
  shows "length full = 32 + 4 * unat tw + 4 * unat tb"
    "blob_field 0 4 full = 0x4641484E" "blob_field 4 4 full = 1"
    "blob_field 8 4 full = 0" "blob_field 12 4 full = 0"
    "blob_field 16 8 full = unat tw" "blob_field 24 8 full = unat tb"
    "take (4 * unat tw) (drop 32 full) = concat (map u32_bytes ws)"
    "drop (32 + 4 * unat tw) full = concat (map u32_bytes bs)"
proof -
  have g: "full = u32_bytes magic @ u32_bytes FAHREN_VERSION_MAJOR @
        u32_bytes FAHREN_VERSION_MINOR @ u32_bytes FAHREN_VERSION_PATCH @
        u64_bytes tw @ u64_bytes tb @ (concat (map u32_bytes ws) @ concat (map u32_bytes bs))"
    using assms(3) by simp
  note F = blob_fields [OF g]
  show "length full = 32 + 4 * unat tw + 4 * unat tb"
    unfolding assms(3)
    by (simp add: length_u32_bytes length_u64_bytes length_concat_u32_bytes assms(1,2))
  show "blob_field 0 4 full = 0x4641484E" using F(1) by (simp add: magic_def)
  show "blob_field 4 4 full = 1" using F(2) by (simp add: FAHREN_VERSION_MAJOR_def)
  show "blob_field 8 4 full = 0" using F(3) by (simp add: FAHREN_VERSION_MINOR_def)
  show "blob_field 12 4 full = 0" using F(4) by (simp add: FAHREN_VERSION_PATCH_def)
  show "blob_field 16 8 full = unat tw" by (rule F(5))
  show "blob_field 24 8 full = unat tb" by (rule F(6))
  show "take (4 * unat tw) (drop 32 full) = concat (map u32_bytes ws)"
    unfolding F(7) by (simp add: length_concat_u32_bytes assms(1))
  have "drop (32 + 4 * unat tw) full = drop (4 * unat tw) (drop 32 full)"
    by (simp add: add.commute)
  also have "\<dots> = concat (map u32_bytes bs)"
    unfolding F(7) by (simp add: length_concat_u32_bytes assms(1))
  finally show "drop (32 + 4 * unat tw) full = concat (map u32_bytes bs)" .
qed

lemma write_succeeds:
  assumes ini: "initialized (handle_mem w c) \<noteq> 0"
    and ls: "layer_array w (handle_mem w c) = Some ls"
    and cnt: "count_params (layer_mem w) ls = Inr (tw, tb)"
    and small: "unat tw < 2 ^ 62" "unat tb < 2 ^ 62"
    and mw: "tw = 0 \<or> malloc_ok e 0 (tw * sizeof_float)"
    and mb: "tb = 0 \<or> malloc_ok e 1 (tb * sizeof_float)"
    and fo: "fopen_ok e p"
    and fw: "\<forall>k n. n \<le> fwrite_items e k n"
  shows "\<exists>w'. fahren_write_random_weights e (Some c) (Some p) w = (Returned FAHREN_SUCCESS, w')"
proof -
  note S = count_params_sums [OF cnt]
  let ?s0 = "\<lparr>weights = alloc_floats tw, biases = alloc_floats tb,
         widx = 0, bidx = 0, pos = rng_pos w\<rparr>"
  have "\<exists>s. fill_loop e (layer_mem w) ls ?s0 = Some s"
  proof (rule fill_loop_ok)
    show "length (weights ?s0) < 2 ^ 64" using length_alloc_floats_lt [of tw] by simp
    show "length (biases ?s0) < 2 ^ 64" using length_alloc_floats_lt [of tb] by simp
    show "unat (widx ?s0) + (\<Sum>l\<leftarrow>ls. unat (layer_weights (layer_mem w) l))
            \<le> length (weights ?s0)"
      using S length_alloc_floats_small [OF small(1)] by simp
    show "unat (bidx ?s0) + (\<Sum>l\<leftarrow>ls. unat (layer_out_dim l)) \<le> length (biases ?s0)"
      using S length_alloc_floats_small [OF small(2)] by simp
  qed
  then obtain s where s: "fill_loop e (layer_mem w) ls ?s0 = Some s" ..
  from fwrite_seq_ok [OF fw] obtain content where
    c: "fwrite_seq e 0 (blob_writes e tw tb s) [] = (True, content)" by blast
  have m1: "\<not> (0 < tw \<and> \<not> malloc_ok e 0 (tw * sizeof_float))" using mw by auto
  have m2: "\<not> (0 < tb \<and> \<not> malloc_ok e 1 (tb * sizeof_float))" using mb by auto
  show ?thesis
    using ini ls cnt s c fo m1 m2
    by (simp add: fahren_write_random_weights_def write_blob_def)
qed

lemma fahren_init_valid:
  "n \<noteq> 0 \<Longrightarrow>
   fahren_init e (Some c) mt n (Some b) w =
     (case fahren_write_random_weights e (Some c) (Some ''fahren_initial_model.bin'')
             (store_handle c mt n (Some b) w) of
        (Undefined_Behaviour, w2) \<Rightarrow> (Undefined_Behaviour, w2)
      | (Returned st, w2) \<Rightarrow> (Returned FAHREN_SUCCESS, w2))"
  by (simp add: fahren_init_def)

section \<open>The concrete inputs, evaluated\<close>

lemma upt_2: "[0..<2] = [0, Suc 0]"
  by (simp add: numeral_2_eq_2)

lemma dense32_layers: "layer_array dense32_world dense32_handle =
   Some [\<lparr>density = 3, previous_layer = None, layer_type = FAHREN_LAYER_DENSE\<rparr>,
         \<lparr>density = 2, previous_layer = Some 0, layer_type = FAHREN_LAYER_DENSE\<rparr>]"
  by (simp add: layer_array_def dense32_world_def dense32_handle_def dense32_mem_def upt_2)

lemma dense32_lw0: "layer_weights dense32_mem \<lparr>density = 3, previous_layer = None, layer_type = FAHREN_LAYER_DENSE\<rparr> = 3"
  by (simp add: layer_weights_def layer_in_dim_def layer_out_dim_def)

lemma dense32_lw1: "layer_weights dense32_mem \<lparr>density = 2, previous_layer = Some 0, layer_type = FAHREN_LAYER_DENSE\<rparr> = 6"
  by (simp add: layer_weights_def layer_in_dim_def layer_out_dim_def dense32_mem_def)

lemma dense32_count: "count_params dense32_mem
   [\<lparr>density = 3, previous_layer = None, layer_type = FAHREN_LAYER_DENSE\<rparr>,
         \<lparr>density = 2, previous_layer = Some 0, layer_type = FAHREN_LAYER_DENSE\<rparr>] = Inr (9, 5)"
  by (simp add: count_params_def dense32_lw0 dense32_lw1 layer_out_dim_def SIZE_MAX_def)

lemma dense32_file:
  assumes "\<forall>k n. n \<le> fwrite_items e k n" "malloc_ok e 0 36" "malloc_ok e 1 20"
    "fopen_ok e ''model.bin''"
  shows "fst (fahren_write_random_weights e (Some 0) (Some ''model.bin'') dense32_world)
     = Returned FAHREN_SUCCESS \<and>
   length (the (files (snd (fahren_write_random_weights e (Some 0) (Some ''model.bin'')
      dense32_world)) ''model.bin'')) = min 88 (flushed e 88)"
proof -
  have "\<exists>w'. fahren_write_random_weights e (Some 0) (Some ''model.bin'') dense32_world
      = (Returned FAHREN_SUCCESS, w')"
  proof (rule write_succeeds)
    show "initialized (handle_mem dense32_world 0) \<noteq> 0"
      by (simp add: dense32_world_def dense32_handle_def)
    show "layer_array dense32_world (handle_mem dense32_world 0) =
      Some [\<lparr>density = 3, previous_layer = None, layer_type = FAHREN_LAYER_DENSE\<rparr>,
           \<lparr>density = 2, previous_layer = Some 0, layer_type = FAHREN_LAYER_DENSE\<rparr>]"
      using dense32_layers by (simp add: dense32_world_def)
    show "count_params (layer_mem dense32_world)
       [\<lparr>density = 3, previous_layer = None, layer_type = FAHREN_LAYER_DENSE\<rparr>,
           \<lparr>density = 2, previous_layer = Some 0, layer_type = FAHREN_LAYER_DENSE\<rparr>] = Inr (9, 5)"
      using dense32_count by (simp add: dense32_world_def)
    show "unat (9 :: size_t) < 2 ^ 62" by simp
    show "unat (5 :: size_t) < 2 ^ 62" by simp
    show "(9 :: size_t) = 0 \<or> malloc_ok e 0 (9 * sizeof_float)"
      using assms(2) by (simp add: sizeof_float_def)
    show "(5 :: size_t) = 0 \<or> malloc_ok e 1 (5 * sizeof_float)"
      using assms(3) by (simp add: sizeof_float_def)
    show "fopen_ok e ''model.bin''" by (rule assms(4))
    show "\<forall>k n. n \<le> fwrite_items e k n" by (rule assms(1))
  qed
  then obtain w' where
    r: "fahren_write_random_weights e (Some 0) (Some ''model.bin'') dense32_world
      = (Returned FAHREN_SUCCESS, w')" ..
  from success_blob_layout [OF r] obtain ls tw tb where
    a: "layer_array dense32_world (handle_mem dense32_world 0) = Some ls"
    and b: "count_params (layer_mem dense32_world) ls = Inr (tw, tb)"
    and lw: "length (weight_samples e (layer_mem dense32_world) ls (rng_pos dense32_world))
        = unat tw"
    and lb: "length (bias_samples e (layer_mem dense32_world) ls (rng_pos dense32_world))
        = unat tb"
    and c: "files w' ''model.bin'' = Some (fclose e
       (u32_bytes magic @ u32_bytes FAHREN_VERSION_MAJOR @ u32_bytes FAHREN_VERSION_MINOR @
        u32_bytes FAHREN_VERSION_PATCH @ u64_bytes tw @ u64_bytes tb @
        concat (map u32_bytes
          (weight_samples e (layer_mem dense32_world) ls (rng_pos dense32_world))) @
        concat (map u32_bytes
          (bias_samples e (layer_mem dense32_world) ls (rng_pos dense32_world)))))"
    by auto
  from a dense32_layers have "ls = [\<lparr>density = 3, previous_layer = None, layer_type = FAHREN_LAYER_DENSE\<rparr>,
         \<lparr>density = 2, previous_layer = Some 0, layer_type = FAHREN_LAYER_DENSE\<rparr>]"
    by (simp add: dense32_world_def)
  with b dense32_count have t: "tw = 9" "tb = 5" by (simp_all add: dense32_world_def)
  from blob_image(1) [OF lw lb refl] t have
    "length (u32_bytes magic @ u32_bytes FAHREN_VERSION_MAJOR @
        u32_bytes FAHREN_VERSION_MINOR @ u32_bytes FAHREN_VERSION_PATCH @
        u64_bytes tw @ u64_bytes tb @
        concat (map u32_bytes
          (weight_samples e (layer_mem dense32_world) ls (rng_pos dense32_world))) @
        concat (map u32_bytes
          (bias_samples e (layer_mem dense32_world) ls (rng_pos dense32_world)))) = 88"
    by simp
  with c have "length (the (files w' ''model.bin'')) = min 88 (flushed e 88)"
    by (simp only: option.sel length_fclose)
  with r show ?thesis by simp
qed

lemma dense32_run:
  "fst (fahren_write_random_weights good_env (Some 0) (Some ''model.bin'') dense32_world)
     = Returned FAHREN_SUCCESS \<and>
   length (the (files (snd (fahren_write_random_weights good_env (Some 0) (Some ''model.bin'')
      dense32_world)) ''model.bin'')) = 88"
proof -
  have "\<forall>k n. n \<le> fwrite_items good_env k n" "malloc_ok good_env 0 36"
    "malloc_ok good_env 1 20" "fopen_ok good_env ''model.bin''" "flushed good_env 88 = 88"
    by (simp_all add: good_env_def)
  with dense32_file [of good_env] show ?thesis by simp
qed

lemma dense32_short_flush:
  "fst (fahren_write_random_weights short_flush_env (Some 0) (Some ''model.bin'')
      dense32_world) = Returned FAHREN_SUCCESS \<and>
   length (the (files (snd (fahren_write_random_weights short_flush_env (Some 0)
      (Some ''model.bin'') dense32_world)) ''model.bin'')) = 16"
proof -
  have "\<forall>k n. n \<le> fwrite_items short_flush_env k n" "malloc_ok short_flush_env 0 36"
    "malloc_ok short_flush_env 1 20" "fopen_ok short_flush_env ''model.bin''"
    "flushed short_flush_env 88 = 16"
    by (simp_all add: short_flush_env_def)
  with dense32_file [of short_flush_env] show ?thesis by simp
qed

lemma two_dense_layers:
  assumes h: "initialized (handle_mem w c) \<noteq> 0" "layer_count (handle_mem w c) = 2"
      "layers (handle_mem w c) = Some b"
    and l0: "layer_mem w b =
      \<lparr>density = 3, previous_layer = None, layer_type = FAHREN_LAYER_DENSE\<rparr>"
    and l1: "layer_mem w (Suc b) =
      \<lparr>density = 2, previous_layer = Some b, layer_type = FAHREN_LAYER_DENSE\<rparr>"
  shows "layer_array w (handle_mem w c) = Some [layer_mem w b, layer_mem w (Suc b)] \<and>
     layer_in_dim (layer_mem w) (layer_mem w b) = 1 \<and>
     layer_weights (layer_mem w) (layer_mem w b) = 3 \<and>
     layer_out_dim (layer_mem w b) = 3 \<and>
     layer_in_dim (layer_mem w) (layer_mem w (Suc b)) = 3 \<and>
     layer_weights (layer_mem w) (layer_mem w (Suc b)) = 6 \<and>
     layer_out_dim (layer_mem w (Suc b)) = 2 \<and>
     count_params (layer_mem w) [layer_mem w b, layer_mem w (Suc b)] = Inr (9, 5) \<and>
     (fahren_write_random_weights e (Some c) (Some p) w = (Returned FAHREN_SUCCESS, w') \<longrightarrow>
        length (the (files w' p)) = min 88 (flushed e 88)) \<and>
     (malloc_ok e 0 36 \<and> malloc_ok e 1 20 \<and> fopen_ok e p \<and> (\<forall>k n. n \<le> fwrite_items e k n)
        \<longrightarrow> (\<exists>v. fahren_write_random_weights e (Some c) (Some p) w
                   = (Returned FAHREN_SUCCESS, v)))"
proof -
  let ?ls = "[layer_mem w b, layer_mem w (Suc b)]"
  have la: "layer_array w (handle_mem w c) = Some ?ls"
    using h by (simp add: layer_array_def upt_rec)
  have i0: "layer_in_dim (layer_mem w) (layer_mem w b) = 1"
    by (simp add: l0 layer_in_dim_def)
  have o0: "layer_out_dim (layer_mem w b) = 3"
    by (simp add: l0 layer_out_dim_def)
  have w0: "layer_weights (layer_mem w) (layer_mem w b) = 3"
    by (simp add: layer_weights_def i0 o0) (simp add: l0)
  have i1: "layer_in_dim (layer_mem w) (layer_mem w (Suc b)) = 3"
    by (simp add: l1 layer_in_dim_def) (simp add: l0)
  have o1: "layer_out_dim (layer_mem w (Suc b)) = 2"
    by (simp add: l1 layer_out_dim_def)
  have w1: "layer_weights (layer_mem w) (layer_mem w (Suc b)) = 6"
    by (simp add: layer_weights_def i1 o1) (simp add: l1)
  have cn: "count_params (layer_mem w) ?ls = Inr (9, 5)"
    by (simp add: count_params_def w0 w1 o0 o1 SIZE_MAX_def)
  have size: "fahren_write_random_weights e (Some c) (Some p) w = (Returned FAHREN_SUCCESS, w')
      \<longrightarrow> length (the (files w' p)) = min 88 (flushed e 88)"
  proof
    assume r: "fahren_write_random_weights e (Some c) (Some p) w = (Returned FAHREN_SUCCESS, w')"
    from success_blob_layout [OF r] obtain ls tw tb where
      a: "layer_array w (handle_mem w c) = Some ls"
      and b: "count_params (layer_mem w) ls = Inr (tw, tb)"
      and lw: "length (weight_samples e (layer_mem w) ls (rng_pos w)) = unat tw"
      and lb: "length (bias_samples e (layer_mem w) ls (rng_pos w)) = unat tb"
      and c: "files w' p = Some (fclose e
         (u32_bytes magic @ u32_bytes FAHREN_VERSION_MAJOR @ u32_bytes FAHREN_VERSION_MINOR @
          u32_bytes FAHREN_VERSION_PATCH @ u64_bytes tw @ u64_bytes tb @
          concat (map u32_bytes (weight_samples e (layer_mem w) ls (rng_pos w))) @
          concat (map u32_bytes (bias_samples e (layer_mem w) ls (rng_pos w)))))"
      by auto
    from a la have "ls = ?ls" by simp
    with b cn have t: "tw = 9" "tb = 5" by simp_all
    from blob_image(1) [OF lw lb refl] t have
      "length (u32_bytes magic @ u32_bytes FAHREN_VERSION_MAJOR @
          u32_bytes FAHREN_VERSION_MINOR @ u32_bytes FAHREN_VERSION_PATCH @
          u64_bytes tw @ u64_bytes tb @
          concat (map u32_bytes (weight_samples e (layer_mem w) ls (rng_pos w))) @
          concat (map u32_bytes (bias_samples e (layer_mem w) ls (rng_pos w)))) = 88"
      by simp
    with c show "length (the (files w' p)) = min 88 (flushed e 88)"
      by (simp only: option.sel length_fclose)
  qed
  have ok: "malloc_ok e 0 36 \<and> malloc_ok e 1 20 \<and> fopen_ok e p \<and>
      (\<forall>k n. n \<le> fwrite_items e k n)
        \<longrightarrow> (\<exists>v. fahren_write_random_weights e (Some c) (Some p) w
                   = (Returned FAHREN_SUCCESS, v))"
  proof
    assume g: "malloc_ok e 0 36 \<and> malloc_ok e 1 20 \<and> fopen_ok e p \<and>
      (\<forall>k n. n \<le> fwrite_items e k n)"
    show "\<exists>v. fahren_write_random_weights e (Some c) (Some p) w = (Returned FAHREN_SUCCESS, v)"
    proof (rule write_succeeds [OF h(1) la cn])
      show "unat (9 :: size_t) < 2 ^ 62" by simp
      show "unat (5 :: size_t) < 2 ^ 62" by simp
      show "(9 :: size_t) = 0 \<or> malloc_ok e 0 (9 * sizeof_float)"
        using g by (simp add: sizeof_float_def)
      show "(5 :: size_t) = 0 \<or> malloc_ok e 1 (5 * sizeof_float)"
        using g by (simp add: sizeof_float_def)
      show "fopen_ok e p" using g by simp
      show "\<forall>k n. n \<le> fwrite_items e k n" using g by simp
    qed
  qed
  from la i0 w0 o0 i1 w1 o1 cn size ok show ?thesis by blast
qed

lemma fresh_init_world:
  "initialized (handle_mem (store_handle 0 FAHREN_MODEL_SEQUENTIAL 2 (Some 0) fresh_world) 0) \<noteq> 0"
  "layer_count (handle_mem (store_handle 0 FAHREN_MODEL_SEQUENTIAL 2 (Some 0) fresh_world) 0) = 2"
  "layers (handle_mem (store_handle 0 FAHREN_MODEL_SEQUENTIAL 2 (Some 0) fresh_world) 0) = Some 0"
  "layer_mem (store_handle 0 FAHREN_MODEL_SEQUENTIAL 2 (Some 0) fresh_world) 0 =
      \<lparr>density = 3, previous_layer = None, layer_type = FAHREN_LAYER_DENSE\<rparr>"
  "layer_mem (store_handle 0 FAHREN_MODEL_SEQUENTIAL 2 (Some 0) fresh_world) (Suc 0) =
      \<lparr>density = 2, previous_layer = Some 0, layer_type = FAHREN_LAYER_DENSE\<rparr>"
  by (simp_all add: store_handle_def fresh_world_def dense32_mem_def)

lemma fresh_init_no_memory:
  "fahren_write_random_weights no_memory_env (Some 0) (Some ''fahren_initial_model.bin'')
     (store_handle 0 FAHREN_MODEL_SEQUENTIAL 2 (Some 0) fresh_world)
   = (Returned FAHREN_ERROR_PROCESSING_FAILED,
      store_handle 0 FAHREN_MODEL_SEQUENTIAL 2 (Some 0) fresh_world)"
proof -
  let ?w1 = "store_handle 0 FAHREN_MODEL_SEQUENTIAL 2 (Some 0) fresh_world"
  note D = two_dense_layers [OF fresh_init_world, of no_memory_env "''x''" ?w1]
  from D have a: "layer_array ?w1 (handle_mem ?w1 0) = Some [layer_mem ?w1 0, layer_mem ?w1 (Suc 0)]"
    and b: "count_params (layer_mem ?w1) [layer_mem ?w1 0, layer_mem ?w1 (Suc 0)] = Inr (9, 5)"
    by blast+
  from a b fresh_init_world(1) show ?thesis
    by (simp add: fahren_write_random_weights_def no_memory_env_def)
qed

lemma wrap_la: "layer_array wrap_world (handle_mem wrap_world 0) = Some [wrap_layer0, wrap_layer1]"
  by (simp add: layer_array_def wrap_world_def upt_2)

lemma wrap_lw0: "layer_weights (layer_mem wrap_world) wrap_layer0 = 1431586686"
  by (simp add: layer_weights_def layer_in_dim_def layer_out_dim_def wrap_layer0_def)

lemma wrap_lw1: "layer_weights (layer_mem wrap_world) wrap_layer1 = 11936"
  by (simp add: layer_weights_def layer_in_dim_def layer_out_dim_def wrap_layer1_def
      wrap_layer0_def wrap_world_def)

lemma wrap_od0: "layer_out_dim wrap_layer0 = 1431586686"
  by (simp add: layer_out_dim_def wrap_layer0_def)

lemma wrap_od1: "layer_out_dim wrap_layer1 = 1431724848"
  by (simp add: layer_out_dim_def wrap_layer1_def)

lemma wrap_cnt:
  "count_params (layer_mem wrap_world) [wrap_layer0, wrap_layer1] = Inr (1431598622, 2863311534)"
  by (simp add: count_params_def wrap_lw0 wrap_lw1 wrap_od0 wrap_od1 SIZE_MAX_def)

lemma wrap_spec:
  "spec_layer_weights (layer_mem wrap_world) wrap_layer0 = 1431586686"
  "spec_layer_weights (layer_mem wrap_world) wrap_layer1 = 18446744073709563552"
  "spec_layer_biases wrap_layer0 = 1431586686"
  "spec_layer_biases wrap_layer1 = 1431724848"
  by (simp_all add: spec_layer_weights_def spec_in_dim_def spec_layer_biases_def
      wrap_layer0_def wrap_layer1_def wrap_world_def)

lemma wrap_success:
  "\<exists>w'. fahren_write_random_weights good_env (Some 0) (Some ''model.bin'') wrap_world
      = (Returned FAHREN_SUCCESS, w')"
proof (rule write_succeeds)
  show "initialized (handle_mem wrap_world 0) \<noteq> 0" by (simp add: wrap_world_def)
  show "layer_array wrap_world (handle_mem wrap_world 0) = Some [wrap_layer0, wrap_layer1]"
    by (rule wrap_la)
  show "count_params (layer_mem wrap_world) [wrap_layer0, wrap_layer1]
          = Inr (1431598622, 2863311534)" by (rule wrap_cnt)
  show "unat (1431598622 :: size_t) < 2 ^ 62" by simp
  show "unat (2863311534 :: size_t) < 2 ^ 62" by simp
  show "(1431598622 :: size_t) = 0 \<or> malloc_ok good_env 0 (1431598622 * sizeof_float)"
    by (simp add: good_env_def)
  show "(2863311534 :: size_t) = 0 \<or> malloc_ok good_env 1 (2863311534 * sizeof_float)"
    by (simp add: good_env_def)
  show "fopen_ok good_env ''model.bin''" by (simp add: good_env_def)
  show "\<forall>k n. n \<le> fwrite_items good_env k n" by (simp add: good_env_def)
qed

lemma upt_5: "[0..<5] = [0, 1, 2, 3, 4]"
  by (simp add: upt_rec)

lemma big_la:
  "layer_array big_world (handle_mem big_world 0)
     = Some [big_layer0, big_layer, big_layer, big_layer, big_layer]"
  by (simp add: layer_array_def big_world_def upt_5)

lemma big_lw0: "layer_weights (layer_mem big_world) big_layer0 = 1073741824"
  by (simp add: layer_weights_def layer_in_dim_def layer_out_dim_def big_layer0_def)

lemma big_lw: "layer_weights (layer_mem big_world) big_layer = 1152921504606846976"
  by (simp add: layer_weights_def layer_in_dim_def layer_out_dim_def big_layer_def
      big_layer0_def big_world_def)

lemma big_od0: "layer_out_dim big_layer0 = 1073741824"
  by (simp add: layer_out_dim_def big_layer0_def)

lemma big_od: "layer_out_dim big_layer = 1073741824"
  by (simp add: layer_out_dim_def big_layer_def)

lemma big_cnt:
  "count_params (layer_mem big_world) [big_layer0, big_layer, big_layer, big_layer, big_layer]
     = Inr (4611686019501129728, 5368709120)"
  by (simp add: count_params_def big_lw0 big_lw big_od0 big_od SIZE_MAX_def)

lemma big_alloc: "length (alloc_floats 4611686019501129728) = 1073741824"
  by (simp add: length_alloc_floats)

lemma big_fill:
  "fill_loop e (layer_mem big_world) [big_layer0, big_layer, big_layer, big_layer, big_layer]
     \<lparr>weights = alloc_floats 4611686019501129728, biases = alloc_floats 5368709120,
      widx = 0, bidx = 0, pos = p0\<rparr> = None"
proof (rule ccontr)
  assume "fill_loop e (layer_mem big_world)
     [big_layer0, big_layer, big_layer, big_layer, big_layer]
     \<lparr>weights = alloc_floats 4611686019501129728, biases = alloc_floats 5368709120,
      widx = 0, bidx = 0, pos = p0\<rparr> \<noteq> None"
  then obtain s where "fill_loop e (layer_mem big_world)
     [big_layer0, big_layer, big_layer, big_layer, big_layer]
     \<lparr>weights = alloc_floats 4611686019501129728, biases = alloc_floats 5368709120,
      widx = 0, bidx = 0, pos = p0\<rparr> = Some s" by blast
  from fill_after_count [OF big_cnt this]
  have "unat (4611686019501129728 :: size_t) \<le> length (alloc_floats 4611686019501129728)"
    by simp
  then show False by (simp add: big_alloc)
qed

section \<open>The claims\<close>

subsection \<open>C1: per-layer counts and totals\<close>

text \<open>The counts of the code are \<^verbatim>\<open>size_t\<close> values: each is the count of the
  specification modulo \<open>2 ^ 64\<close>, hence equal to it for every layer with non-negative
  dimensions whose weight count fits, which every such Dense layer does. When the counting
  pass returns totals they are the exact sums of the per-layer values it computed, and the
  sums of the specification's counts when every layer fits.\<close>

lemma counts_modulo_and_exact:
  "uint (layer_in_dim m l) = spec_in_dim m l mod 2 ^ 64 \<and>
   uint (layer_out_dim l) = spec_layer_biases l mod 2 ^ 64 \<and>
   uint (layer_weights m l) = spec_layer_weights m l mod 2 ^ 64 \<and>
   (counts_fit m l \<longrightarrow>
      uint (layer_weights m l) = spec_layer_weights m l \<and>
      uint (layer_out_dim l) = spec_layer_biases l) \<and>
   (layer_type l = FAHREN_LAYER_DENSE \<and> 0 \<le> spec_in_dim m l \<and> 0 \<le> sint (density l)
      \<longrightarrow> counts_fit m l) \<and>
   (count_params m ls = Inr (tw, tb) \<longrightarrow>
      unat tw = (\<Sum>l\<leftarrow>ls. unat (layer_weights m l)) \<and>
      unat tb = (\<Sum>l\<leftarrow>ls. unat (layer_out_dim l))) \<and>
   (count_params m ls = Inr (tw, tb) \<and> list_all (counts_fit m) ls \<longrightarrow>
      uint tw = (\<Sum>l\<leftarrow>ls. spec_layer_weights m l) \<and>
      uint tb = (\<Sum>l\<leftarrow>ls. spec_layer_biases l))"
  using spec_counts_mod(1) [of m l] spec_counts_mod(2) [of l] spec_counts_mod(3) [of m l]
    spec_counts_exact [of m l] dense_counts_fit [of l m]
    count_params_sums [of m ls tw tb] count_params_exact [of m ls tw tb]
  by blast

text \<open>
  Claim C1. For every layer sequence the counter gives a layer the weight count
  \<open>in_dim * out_dim\<close>, times 9 exactly when the layer is Convolutional, where
  \<open>in_dim\<close> is the predecessor's density (1 without predecessor) and \<open>out_dim\<close> the
  layer's own density; its bias count is \<open>out_dim\<close> whatever the kind; and the totals
  returned are the sums of these per-layer counts.

  The products of lines 115 and 117 are taken in \<^verbatim>\<open>size_t\<close> and not checked, so the
  claim fails where a product does not fit. For the Convolutional layer of density
  1431724848 whose predecessor has density 1431586686, the input dimension and the bias
  count are as claimed and the claimed weight count is
  \<open>1431586686 * 1431724848 * 9 = 18446744073709563552\<close>, which is \<open>2 ^ 64 + 11936\<close>;
  the counter gives the layer 11936 weights, and the total it returns for the two layers,
  1431598622, is not the sum 18446744075141150238 of the claimed counts. It is the
  unchecked product of claim C2, on the same input.
\<close>

theorem wrapped_count_is_not_the_product:
  "layer_array wrap_world (handle_mem wrap_world 0) = Some [wrap_layer0, wrap_layer1] \<and>
   previous_layer wrap_layer1 = Some 0 \<and> layer_mem wrap_world 0 = wrap_layer0 \<and>
   layer_type wrap_layer1 = FAHREN_LAYER_CONVOLUTIONAL \<and>
   sint (density wrap_layer0) = 1431586686 \<and> sint (density wrap_layer1) = 1431724848 \<and>
   uint (layer_in_dim (layer_mem wrap_world) wrap_layer1) = 1431586686 \<and>
   uint (layer_out_dim wrap_layer1) = 1431724848 \<and>
   spec_layer_weights (layer_mem wrap_world) wrap_layer1 = 1431586686 * 1431724848 * 9 \<and>
   spec_layer_weights (layer_mem wrap_world) wrap_layer1 = 18446744073709563552 \<and>
   uint (layer_weights (layer_mem wrap_world) wrap_layer1) = 11936 \<and>
   count_params (layer_mem wrap_world) [wrap_layer0, wrap_layer1]
     = Inr (1431598622, 2863311534) \<and>
   (\<Sum>l\<leftarrow>[wrap_layer0, wrap_layer1]. uint (layer_weights (layer_mem wrap_world) l))
     = 1431598622 \<and>
   (\<Sum>l\<leftarrow>[wrap_layer0, wrap_layer1]. spec_layer_weights (layer_mem wrap_world) l)
     = 18446744075141150238"
proof -
  have "previous_layer wrap_layer1 = Some 0" "layer_mem wrap_world 0 = wrap_layer0"
    "layer_type wrap_layer1 = FAHREN_LAYER_CONVOLUTIONAL"
    "sint (density wrap_layer0) = 1431586686" "sint (density wrap_layer1) = 1431724848"
    by (simp_all add: wrap_layer0_def wrap_layer1_def wrap_world_def)
  moreover have "uint (layer_in_dim (layer_mem wrap_world) wrap_layer1) = 1431586686"
    by (simp add: layer_in_dim_def wrap_layer0_def wrap_layer1_def wrap_world_def)
  moreover have "uint (layer_out_dim wrap_layer1) = 1431724848"
    by (simp add: wrap_od1)
  moreover have "spec_layer_weights (layer_mem wrap_world) wrap_layer1
      = 1431586686 * 1431724848 * 9"
    by (simp add: wrap_spec)
  moreover have "uint (layer_weights (layer_mem wrap_world) wrap_layer1) = 11936"
    by (simp add: wrap_lw1)
  moreover have
    "(\<Sum>l\<leftarrow>[wrap_layer0, wrap_layer1]. uint (layer_weights (layer_mem wrap_world) l))
       = 1431598622" by (simp add: wrap_lw0 wrap_lw1)
  moreover have
    "(\<Sum>l\<leftarrow>[wrap_layer0, wrap_layer1]. spec_layer_weights (layer_mem wrap_world) l)
       = 18446744075141150238" by (simp add: wrap_spec)
  ultimately show ?thesis using wrap_la wrap_cnt wrap_spec(2) by simp
qed

subsection \<open>C2: overflow of a per-layer product\<close>

text \<open>
  Claim C2. With positive densities, when the true sum of the per-layer weight counts or
  bias counts exceeds \<^verbatim>\<open>SIZE_MAX\<close> the operation returns
  \<^verbatim>\<open>FAHREN_ERROR_PROCESSING_FAILED\<close>; no wrap-around of the running total or of a
  per-layer count contributes to a successful result.

  The additions are checked (\<open>count_loop_overflow\<close>), the multiplications of lines
  115 and 117 are not. For the Dense layer of density 1431586686 followed by the
  Convolutional layer of density 1431724848 the true weight count is
  \<open>1431586686 + 9 * 1431586686 * 1431724848 = 18446744075141150238\<close>, above
  \<^verbatim>\<open>SIZE_MAX\<close>; the second layer's count wraps to 11936, the counting pass returns the
  totals 1431598622 and 2863311534, and the write succeeds.
\<close>

theorem convolution_product_wraps_unnoticed:
  "layer_array wrap_world (handle_mem wrap_world 0) = Some [wrap_layer0, wrap_layer1] \<and>
   0 < sint (density wrap_layer0) \<and> 0 < sint (density wrap_layer1) \<and>
   (\<Sum>l\<leftarrow>[wrap_layer0, wrap_layer1]. spec_layer_weights (layer_mem wrap_world) l)
     = 18446744075141150238 \<and>
   uint SIZE_MAX = 18446744073709551615 \<and>
   layer_weights (layer_mem wrap_world) wrap_layer1 = 11936 \<and>
   count_params (layer_mem wrap_world) [wrap_layer0, wrap_layer1]
     = Inr (1431598622, 2863311534) \<and>
   fst (fahren_write_random_weights good_env (Some 0) (Some ''model.bin'') wrap_world)
     = Returned FAHREN_SUCCESS"
proof -
  from wrap_success have
    "fst (fahren_write_random_weights good_env (Some 0) (Some ''model.bin'') wrap_world)
       = Returned FAHREN_SUCCESS" by auto
  moreover have "0 < sint (density wrap_layer0)" "0 < sint (density wrap_layer1)"
    by (simp_all add: wrap_layer0_def wrap_layer1_def)
  moreover have "uint SIZE_MAX = 18446744073709551615" by (simp add: SIZE_MAX_def)
  moreover have
    "(\<Sum>l\<leftarrow>[wrap_layer0, wrap_layer1]. spec_layer_weights (layer_mem wrap_world) l)
     = 18446744075141150238" by (simp add: wrap_spec)
  ultimately show ?thesis using wrap_la wrap_lw1 wrap_cnt by simp
qed

subsection \<open>C3: layout of a written blob\<close>

text \<open>
  Claim C3, with the size of the header corrected, for a stream whose bytes all reach the
  file. Whenever \<^verbatim>\<open>fahren_write_random_weights\<close> returns \<^verbatim>\<open>FAHREN_SUCCESS\<close>, the handle
  and the path are non-null, the handle is initialized, and the bytes handed to the stream
  are, in order: the 4-byte magic constant, the 4-byte major, minor and patch versions, the
  8-byte weight count and the 8-byte bias count, equal to the totals of the counting pass
  for the handle's sequence, then the weight buffer, that many 4-byte floats in fill order,
  then the bias buffer, that many 4-byte floats in fill order. The header is 32 bytes long,
  so these are \<open>32 + 4 * total_weights + 4 * total_biases\<close> bytes; read back, the six
  header fields are \<open>0x4641484E\<close>, 1, 0, 0 and the two totals, the weight section
  starts at byte 32 and the bias section follows it. The file at the path holds what got
  through of these bytes when the stream was closed, and it is exactly these bytes when
  all of them got through.
\<close>

theorem written_blob_layout:
  assumes "fahren_write_random_weights e cm path w = (Returned FAHREN_SUCCESS, w')"
  shows "\<exists>c p ls tw tb full.
     cm = Some c \<and> path = Some p \<and> initialized (handle_mem w c) \<noteq> 0 \<and>
     layer_array w (handle_mem w c) = Some ls \<and>
     count_params (layer_mem w) ls = Inr (tw, tb) \<and>
     full = u32_bytes magic @ u32_bytes FAHREN_VERSION_MAJOR @
        u32_bytes FAHREN_VERSION_MINOR @ u32_bytes FAHREN_VERSION_PATCH @
        u64_bytes tw @ u64_bytes tb @
        concat (map u32_bytes (weight_samples e (layer_mem w) ls (rng_pos w))) @
        concat (map u32_bytes (bias_samples e (layer_mem w) ls (rng_pos w))) \<and>
     length (weight_samples e (layer_mem w) ls (rng_pos w)) = unat tw \<and>
     length (bias_samples e (layer_mem w) ls (rng_pos w)) = unat tb \<and>
     rng_pos w' = rng_pos w + unat tw + unat tb \<and>
     length full = 32 + 4 * unat tw + 4 * unat tb \<and>
     blob_field 0 4 full = 0x4641484E \<and>
     blob_field 4 4 full = 1 \<and>
     blob_field 8 4 full = 0 \<and>
     blob_field 12 4 full = 0 \<and>
     blob_field 16 8 full = unat tw \<and>
     blob_field 24 8 full = unat tb \<and>
     take (4 * unat tw) (drop 32 full)
       = concat (map u32_bytes (weight_samples e (layer_mem w) ls (rng_pos w))) \<and>
     drop (32 + 4 * unat tw) full
       = concat (map u32_bytes (bias_samples e (layer_mem w) ls (rng_pos w))) \<and>
     files w' p = Some (fclose e full) \<and>
     (length full \<le> flushed e (length full) \<longrightarrow> files w' p = Some full)"
proof -
  from success_blob_layout [OF assms] obtain c p ls tw tb where
    a: "cm = Some c" "path = Some p" "initialized (handle_mem w c) \<noteq> 0"
      "layer_array w (handle_mem w c) = Some ls"
      "count_params (layer_mem w) ls = Inr (tw, tb)"
    and lw: "length (weight_samples e (layer_mem w) ls (rng_pos w)) = unat tw"
    and lb: "length (bias_samples e (layer_mem w) ls (rng_pos w)) = unat tb"
    and r: "rng_pos w' = rng_pos w + unat tw + unat tb"
    and f: "files w' p = Some (fclose e
       (u32_bytes magic @ u32_bytes FAHREN_VERSION_MAJOR @ u32_bytes FAHREN_VERSION_MINOR @
        u32_bytes FAHREN_VERSION_PATCH @ u64_bytes tw @ u64_bytes tb @
        concat (map u32_bytes (weight_samples e (layer_mem w) ls (rng_pos w))) @
        concat (map u32_bytes (bias_samples e (layer_mem w) ls (rng_pos w)))))"
    by blast
  define full where "full = u32_bytes magic @ u32_bytes FAHREN_VERSION_MAJOR @
        u32_bytes FAHREN_VERSION_MINOR @ u32_bytes FAHREN_VERSION_PATCH @
        u64_bytes tw @ u64_bytes tb @
        concat (map u32_bytes (weight_samples e (layer_mem w) ls (rng_pos w))) @
        concat (map u32_bytes (bias_samples e (layer_mem w) ls (rng_pos w)))"
  note I = blob_image [OF lw lb full_def]
  have f1: "files w' p = Some (fclose e full)" using f by (simp only: full_def)
  have f2: "length full \<le> flushed e (length full) \<longrightarrow> files w' p = Some full"
    using f1 by (simp add: fclose_all)
  show ?thesis
    apply (rule exI [of _ c], rule exI [of _ p], rule exI [of _ ls], rule exI [of _ tw])
    apply (rule exI [of _ tb], rule exI [of _ full])
    apply (intro conjI)
    apply (fact a full_def lw lb r I f1 f2)+
    done
qed

text \<open>The two Dense layers of densities 3 and 2, written where everything succeeds and
  every byte reaches the file: layer 0 draws samples 0 to 2 for its weights and 3 to 5 for
  its biases, layer 1 draws samples 6 to 11 and 12 to 13.\<close>

theorem written_blob_layout_witness:
  "fst (fahren_write_random_weights good_env (Some 0) (Some ''model.bin'') dense32_world)
     = Returned FAHREN_SUCCESS \<and>
   (88 :: nat) \<le> flushed good_env 88 \<and>
   files (snd (fahren_write_random_weights good_env (Some 0) (Some ''model.bin'')
      dense32_world)) ''model.bin'' = Some
     (u32_bytes magic @ u32_bytes FAHREN_VERSION_MAJOR @ u32_bytes FAHREN_VERSION_MINOR @
      u32_bytes FAHREN_VERSION_PATCH @ u64_bytes 9 @ u64_bytes 5 @
      concat (map u32_bytes [0, 1, 2, 6, 7, 8, 9, 10, 11]) @
      concat (map u32_bytes [3, 4, 5, 12, 13])) \<and>
   length (the (files (snd (fahren_write_random_weights good_env (Some 0) (Some ''model.bin'')
      dense32_world)) ''model.bin'')) = 88 \<and>
   blob_field 16 8 (the (files (snd (fahren_write_random_weights good_env (Some 0)
      (Some ''model.bin'') dense32_world)) ''model.bin'')) = 9 \<and>
   blob_field 24 8 (the (files (snd (fahren_write_random_weights good_env (Some 0)
      (Some ''model.bin'') dense32_world)) ''model.bin'')) = 5"
proof -
  let ?r = "fahren_write_random_weights good_env (Some 0) (Some ''model.bin'') dense32_world"
  let ?ls = "[\<lparr>density = 3, previous_layer = None, layer_type = FAHREN_LAYER_DENSE\<rparr>,
         \<lparr>density = 2, previous_layer = Some 0, layer_type = FAHREN_LAYER_DENSE\<rparr>]"
  from dense32_run have f: "fst ?r = Returned FAHREN_SUCCESS" by simp
  then have "?r = (Returned FAHREN_SUCCESS, snd ?r)" by (simp add: prod_eq_iff)
  from written_blob_layout [OF this] obtain c p ls tw tb full where
    c: "Some (0 :: addr) = Some c" "Some ''model.bin'' = Some p"
    and la: "layer_array dense32_world (handle_mem dense32_world c) = Some ls"
    and cn: "count_params (layer_mem dense32_world) ls = Inr (tw, tb)"
    and fu: "full = u32_bytes magic @ u32_bytes FAHREN_VERSION_MAJOR @
        u32_bytes FAHREN_VERSION_MINOR @ u32_bytes FAHREN_VERSION_PATCH @
        u64_bytes tw @ u64_bytes tb @
        concat (map u32_bytes
          (weight_samples good_env (layer_mem dense32_world) ls (rng_pos dense32_world))) @
        concat (map u32_bytes
          (bias_samples good_env (layer_mem dense32_world) ls (rng_pos dense32_world)))"
    and len: "length full = 32 + 4 * unat tw + 4 * unat tb"
    and b16: "blob_field 16 8 full = unat tw"
    and b24: "blob_field 24 8 full = unat tb"
    and fl: "length full \<le> flushed good_env (length full)
        \<longrightarrow> files (snd ?r) p = Some full"
    by blast
  from c la dense32_layers have ls: "ls = ?ls" by (simp add: dense32_world_def)
  with cn dense32_count have t: "tw = 9" "tb = 5" by (simp_all add: dense32_world_def)
  from len t have l88: "length full = 88" by simp
  have g: "(88 :: nat) \<le> flushed good_env 88" by (simp add: good_env_def)
  with fl l88 c have fil: "files (snd ?r) ''model.bin'' = Some full" by simp
  have ws: "weight_samples good_env (layer_mem dense32_world) ?ls (rng_pos dense32_world)
      = [0, 1, 2, 6, 7, 8, 9, 10, 11]"
    by (simp add: dense32_lw0 dense32_lw1 layer_out_dim_def dense32_world_def good_env_def
        upt_rec)
  have bs: "bias_samples good_env (layer_mem dense32_world) ?ls (rng_pos dense32_world)
      = [3, 4, 5, 12, 13]"
    by (simp add: dense32_lw0 dense32_lw1 layer_out_dim_def dense32_world_def good_env_def
        upt_rec)
  have full: "full = u32_bytes magic @ u32_bytes FAHREN_VERSION_MAJOR @
      u32_bytes FAHREN_VERSION_MINOR @ u32_bytes FAHREN_VERSION_PATCH @
      u64_bytes 9 @ u64_bytes 5 @
      concat (map u32_bytes [0, 1, 2, 6, 7, 8, 9, 10, 11]) @
      concat (map u32_bytes [3, 4, 5, 12, 13])"
    unfolding fu ls t ws bs ..
  from b16 b24 t have b: "blob_field 16 8 full = 9" "blob_field 24 8 full = 5" by simp_all
  from f g fil l88 b show ?thesis unfolding full by simp
qed

text \<open>The size the claim states, \<open>24 + 4 * total_weights + 4 * total_biases\<close>, is not
  the size of that file.\<close>

theorem header_is_not_24_bytes:
  "fst (fahren_write_random_weights good_env (Some 0) (Some ''model.bin'') dense32_world)
     = Returned FAHREN_SUCCESS \<and>
   count_params (layer_mem dense32_world)
     (the (layer_array dense32_world (handle_mem dense32_world 0))) = Inr (9, 5) \<and>
   length (the (files (snd (fahren_write_random_weights good_env (Some 0) (Some ''model.bin'')
      dense32_world)) ''model.bin'')) \<noteq> 24 + 4 * unat (9 :: size_t) + 4 * unat (5 :: size_t)"
  using dense32_run dense32_layers dense32_count by (simp add: dense32_world_def)

subsection \<open>C4: the end-to-end scenario\<close>

text \<open>
  Claim C4. For two Dense layers of densities 3 and 2, the first without predecessor and
  the second with the first as predecessor, the counter gives layer 0 the input dimension
  1, 3 weights and 3 biases, layer 1 the input dimension 3, 6 weights and 2 biases, the
  totals 9 and 5, and a successful write produces a file of exactly 88 bytes.

  The counts are as claimed, and 88 bytes are handed to the stream
  (\<open>two_dense_layers\<close>). Every \<^verbatim>\<open>fwrite\<close> is checked, the \<^verbatim>\<open>fclose\<close> of line 188 is not:
  when the stream accepts the 88 bytes and the flush inside \<^verbatim>\<open>fclose\<close> fails after 16 of
  them have reached the file, the call returns \<^verbatim>\<open>FAHREN_SUCCESS\<close> and the file has 16
  bytes.
\<close>

theorem success_with_a_short_file:
  "layer_array dense32_world (handle_mem dense32_world 0)
     = Some [layer_mem dense32_world 0, layer_mem dense32_world 1] \<and>
   layer_in_dim (layer_mem dense32_world) (layer_mem dense32_world 0) = 1 \<and>
   layer_weights (layer_mem dense32_world) (layer_mem dense32_world 0) = 3 \<and>
   layer_out_dim (layer_mem dense32_world 0) = 3 \<and>
   layer_in_dim (layer_mem dense32_world) (layer_mem dense32_world 1) = 3 \<and>
   layer_weights (layer_mem dense32_world) (layer_mem dense32_world 1) = 6 \<and>
   layer_out_dim (layer_mem dense32_world 1) = 2 \<and>
   count_params (layer_mem dense32_world) [layer_mem dense32_world 0, layer_mem dense32_world 1]
     = Inr (9, 5) \<and>
   fwrite_items short_flush_env 7 5 = 5 \<and> flushed short_flush_env 88 = 16 \<and>
   fst (fahren_write_random_weights short_flush_env (Some 0) (Some ''model.bin'')
      dense32_world) = Returned FAHREN_SUCCESS \<and>
   length (the (files (snd (fahren_write_random_weights short_flush_env (Some 0)
      (Some ''model.bin'') dense32_world)) ''model.bin'')) = 16"
proof -
  have h: "initialized (handle_mem dense32_world 0) \<noteq> 0"
    "layer_count (handle_mem dense32_world 0) = 2"
    "layers (handle_mem dense32_world 0) = Some 0"
    by (simp_all add: dense32_world_def dense32_handle_def)
  have l0: "layer_mem dense32_world 0 =
      \<lparr>density = 3, previous_layer = None, layer_type = FAHREN_LAYER_DENSE\<rparr>"
    by (simp add: dense32_world_def dense32_mem_def)
  have l1: "layer_mem dense32_world (Suc 0) =
      \<lparr>density = 2, previous_layer = Some 0, layer_type = FAHREN_LAYER_DENSE\<rparr>"
    by (simp add: dense32_world_def dense32_mem_def)
  note T = two_dense_layers [OF h l0 l1, of short_flush_env "''model.bin''" dense32_world]
  have e: "fwrite_items short_flush_env 7 5 = 5" "flushed short_flush_env 88 = 16"
    by (simp_all add: short_flush_env_def)
  from T e dense32_short_flush show ?thesis by simp
qed

subsection \<open>C5: argument and state checks of the write\<close>

text \<open>
  Claim C5, with the order of the two checks made explicit.
  \<^verbatim>\<open>fahren_write_random_weights\<close> returns \<^verbatim>\<open>FAHREN_ERROR_INVALID_ARGUMENT\<close>
  whenever the handle or the path is null; it returns
  \<^verbatim>\<open>FAHREN_ERROR_NOT_INITIALIZED\<close> whenever handle and path are both non-null and the
  handle is not initialized. In both cases nothing changes: no sample is drawn, no file is
  created, and the answer does not depend on the environment or on the layers.
\<close>

theorem write_argument_and_state_checks:
  "(cm = None \<or> path = None \<longrightarrow>
      fahren_write_random_weights e cm path w = (Returned FAHREN_ERROR_INVALID_ARGUMENT, w)) \<and>
   (cm = Some c \<and> path = Some p \<and> initialized (handle_mem w c) = 0 \<longrightarrow>
      fahren_write_random_weights e cm path w = (Returned FAHREN_ERROR_NOT_INITIALIZED, w))"
  by (cases cm; cases path) (simp_all add: fahren_write_random_weights_def)

theorem write_argument_and_state_checks_witness:
  "fahren_write_random_weights good_env None (Some ''model.bin'') fresh_world
     = (Returned FAHREN_ERROR_INVALID_ARGUMENT, fresh_world) \<and>
   fahren_write_random_weights good_env (Some 0) None fresh_world
     = (Returned FAHREN_ERROR_INVALID_ARGUMENT, fresh_world) \<and>
   fahren_write_random_weights good_env (Some 0) (Some ''model.bin'') fresh_world
     = (Returned FAHREN_ERROR_NOT_INITIALIZED, fresh_world) \<and>
   files fresh_world ''model.bin'' = None"
  using write_argument_and_state_checks
          [of None "Some ''model.bin''" good_env fresh_world 0 "''model.bin''"]
        write_argument_and_state_checks
          [of "Some 0" None good_env fresh_world 0 "''model.bin''"]
        write_argument_and_state_checks
          [of "Some 0" "Some ''model.bin''" good_env fresh_world 0 "''model.bin''"]
  by (simp add: fresh_world_def)

text \<open>A non-null handle that is not initialized, with a null path, is answered with
  \<^verbatim>\<open>FAHREN_ERROR_INVALID_ARGUMENT\<close>: the check of line 106 comes first.\<close>

theorem null_path_precedes_not_initialized:
  "initialized (handle_mem fresh_world 0) = 0 \<and>
   fst (fahren_write_random_weights good_env (Some 0) None fresh_world)
     \<noteq> Returned FAHREN_ERROR_NOT_INITIALIZED"
  by (simp add: fahren_write_random_weights_def fresh_world_def)

subsection \<open>C6: counting is pure\<close>

text \<open>
  Claim C6. Counting is a function of the layer sequence alone: sequences that agree layer
  by layer on input dimension, density and kind get the same per-layer counts and the same
  result, whatever memory they live in; and a call of
  \<^verbatim>\<open>fahren_write_random_weights\<close> changes neither the layers nor the handles, so the
  counting pass of a second call sees the same sequence and returns the same result.
\<close>

theorem counting_is_pure:
  "(fahren_write_random_weights e cm path w = (r, w') \<longrightarrow>
      layer_mem w' = layer_mem w \<and> handle_mem w' = handle_mem w \<and>
      layer_array w' h = layer_array w h \<and>
      count_params (layer_mem w') ls = count_params (layer_mem w) ls) \<and>
   (map (\<lambda>l. (layer_in_dim m l, density l, layer_type l)) ls
      = map (\<lambda>l. (layer_in_dim m' l, density l, layer_type l)) ls' \<longrightarrow>
      count_params m ls = count_params m' ls' \<and>
      map (layer_weights m) ls = map (layer_weights m') ls' \<and>
      map layer_out_dim ls = map layer_out_dim ls')"
proof (intro conjI impI)
  assume r: "fahren_write_random_weights e cm path w = (r, w')"
  from write_keeps_memory [OF r] show m: "layer_mem w' = layer_mem w"
    and "handle_mem w' = handle_mem w" by simp_all
  from m show "layer_array w' h = layer_array w h" by (rule layer_array_after)
  from m show "count_params (layer_mem w') ls = count_params (layer_mem w) ls" by simp
next
  assume eq: "map (\<lambda>l. (layer_in_dim m l, density l, layer_type l)) ls
      = map (\<lambda>l. (layer_in_dim m' l, density l, layer_type l)) ls'"
  have len: "length ls = length ls'" using eq by (rule map_eq_imp_length_eq)
  have pt: "\<forall>i < length ls. layer_in_dim m (ls ! i) = layer_in_dim m' (ls' ! i) \<and>
      density (ls ! i) = density (ls' ! i) \<and> layer_type (ls ! i) = layer_type (ls' ! i)"
  proof (intro allI impI)
    fix i assume i: "i < length ls"
    from eq have "map (\<lambda>l. (layer_in_dim m l, density l, layer_type l)) ls ! i
      = map (\<lambda>l. (layer_in_dim m' l, density l, layer_type l)) ls' ! i" by simp
    with i len show "layer_in_dim m (ls ! i) = layer_in_dim m' (ls' ! i) \<and>
      density (ls ! i) = density (ls' ! i) \<and> layer_type (ls ! i) = layer_type (ls' ! i)"
      by simp
  qed
  show w: "map (layer_weights m) ls = map (layer_weights m') ls'"
    using len pt by (intro nth_equalityI) (simp_all add: layer_weights_def layer_out_dim_def)
  show o: "map layer_out_dim ls = map layer_out_dim ls'"
    using len pt by (intro nth_equalityI) (simp_all add: layer_out_dim_def)
  have "map (\<lambda>l. (layer_weights m l, layer_out_dim l)) ls
     = map (\<lambda>l. (layer_weights m' l, layer_out_dim l)) ls'"
    using len pt by (intro nth_equalityI) (simp_all add: layer_weights_def layer_out_dim_def)
  then show "count_params m ls = count_params m' ls'"
    unfolding count_params_def by (rule count_loop_cong)
qed

theorem counting_is_pure_witness:
  "layer_mem (snd (fahren_write_random_weights good_env (Some 0) (Some ''model.bin'')
      dense32_world)) = layer_mem dense32_world \<and>
   handle_mem (snd (fahren_write_random_weights good_env (Some 0) (Some ''model.bin'')
      dense32_world)) = handle_mem dense32_world \<and>
   count_params (layer_mem (snd (fahren_write_random_weights good_env (Some 0)
      (Some ''model.bin'') dense32_world))) [dense32_mem 0, dense32_mem 1]
     = count_params (layer_mem dense32_world) [dense32_mem 0, dense32_mem 1] \<and>
   [dense32_mem 0, dense32_mem 1] \<noteq> [dense32_mem_moved 10, dense32_mem_moved 11] \<and>
   count_params dense32_mem [dense32_mem 0, dense32_mem 1]
     = count_params dense32_mem_moved [dense32_mem_moved 10, dense32_mem_moved 11]"
proof -
  let ?r = "fahren_write_random_weights good_env (Some 0) (Some ''model.bin'') dense32_world"
  let ?ls = "[dense32_mem 0, dense32_mem 1]"
  let ?ls' = "[dense32_mem_moved 10, dense32_mem_moved 11]"
  have r: "?r = (fst ?r, snd ?r)" by simp
  have eq: "map (\<lambda>l. (layer_in_dim dense32_mem l, density l, layer_type l)) ?ls
      = map (\<lambda>l. (layer_in_dim dense32_mem_moved l, density l, layer_type l)) ?ls'"
    by (simp add: dense32_mem_def dense32_mem_moved_def layer_in_dim_def)
  have ne: "?ls \<noteq> ?ls'" by (simp add: dense32_mem_def dense32_mem_moved_def)
  note T = counting_is_pure [of good_env "Some 0" "Some ''model.bin''" dense32_world
      "fst ?r" "snd ?r" dense32_handle ?ls dense32_mem dense32_mem_moved ?ls']
  from T r have a: "layer_mem (snd ?r) = layer_mem dense32_world"
    and b: "handle_mem (snd ?r) = handle_mem dense32_world"
    and c: "count_params (layer_mem (snd ?r)) ?ls = count_params (layer_mem dense32_world) ?ls"
    by blast+
  from T eq have d: "count_params dense32_mem ?ls = count_params dense32_mem_moved ?ls'"
    by blast
  from a b c d ne show ?thesis by blast
qed

subsection \<open>C7: \<^verbatim>\<open>fahren_init\<close> rejects invalid arguments\<close>

text \<open>
  Claim C7. \<^verbatim>\<open>fahren_init\<close> returns \<^verbatim>\<open>FAHREN_ERROR_INVALID_ARGUMENT\<close> whenever the
  handle is null, the layer array is null or the layer count is 0, and then changes
  nothing: no field of any handle is written, no file is created.
\<close>

theorem init_rejects_invalid_arguments:
  "cm = None \<or> ls = None \<or> n = 0 \<Longrightarrow>
     fahren_init e cm mt n ls w = (Returned FAHREN_ERROR_INVALID_ARGUMENT, w)"
  by (cases cm) (auto simp: fahren_init_def)

theorem init_rejects_invalid_arguments_witness:
  "fahren_init good_env (Some 0) FAHREN_MODEL_SEQUENTIAL 0 (Some 0) fresh_world
     = (Returned FAHREN_ERROR_INVALID_ARGUMENT, fresh_world) \<and>
   fahren_init good_env None FAHREN_MODEL_SEQUENTIAL 2 (Some 0) fresh_world
     = (Returned FAHREN_ERROR_INVALID_ARGUMENT, fresh_world) \<and>
   fahren_init good_env (Some 0) FAHREN_MODEL_SEQUENTIAL 2 None fresh_world
     = (Returned FAHREN_ERROR_INVALID_ARGUMENT, fresh_world) \<and>
   initialized (handle_mem fresh_world 0) = 0"
  using init_rejects_invalid_arguments
          [of "Some 0" "Some 0" 0 good_env FAHREN_MODEL_SEQUENTIAL fresh_world]
        init_rejects_invalid_arguments
          [of None "Some 0" 2 good_env FAHREN_MODEL_SEQUENTIAL fresh_world]
        init_rejects_invalid_arguments
          [of "Some 0" None 2 good_env FAHREN_MODEL_SEQUENTIAL fresh_world]
  by (simp add: fresh_world_def)

subsection \<open>C8: \<^verbatim>\<open>fahren_init\<close> stores the fields and writes once\<close>

text \<open>
  Claim C8. For a non-null handle, a non-null layer array and a layer count above 0,
  \<^verbatim>\<open>fahren_init\<close> stores the model kind, the layer count and the layer array in the
  handle, marks it initialized, and its further effect is that of one call of
  \<^verbatim>\<open>fahren_write_random_weights\<close> on that handle with the path
  \<^verbatim>\<open>"fahren_initial_model.bin"\<close>; the handle keeps the stored fields and the layers are
  untouched.
\<close>

theorem init_stores_then_writes_once:
  assumes "n \<noteq> 0"
  shows "snd (fahren_init e (Some c) mt n (Some b) w) =
       snd (fahren_write_random_weights e (Some c) (Some ''fahren_initial_model.bin'')
              (store_handle c mt n (Some b) w)) \<and>
     handle_mem (snd (fahren_init e (Some c) mt n (Some b) w)) =
       (handle_mem w)(c := \<lparr>initialized = 1, layer_count = n, model_type = mt,
                              layers = Some b\<rparr>) \<and>
     layer_mem (snd (fahren_init e (Some c) mt n (Some b) w)) = layer_mem w"
proof -
  let ?w1 = "store_handle c mt n (Some b) w"
  let ?r = "fahren_write_random_weights e (Some c) (Some ''fahren_initial_model.bin'') ?w1"
  have s: "snd (fahren_init e (Some c) mt n (Some b) w) = snd ?r"
    using assms by (simp add: fahren_init_valid split: prod.split outcome.split)
  have "?r = (fst ?r, snd ?r)" by simp
  from write_keeps_memory [OF this]
  have "handle_mem (snd ?r) = handle_mem ?w1" "layer_mem (snd ?r) = layer_mem ?w1"
    by simp_all
  moreover have "handle_mem ?w1 = (handle_mem w)(c := \<lparr>initialized = 1, layer_count = n,
      model_type = mt, layers = Some b\<rparr>)"
    by (cases "handle_mem w c") (simp add: store_handle_def)
  moreover have "layer_mem ?w1 = layer_mem w" by (simp add: store_handle_def)
  ultimately show ?thesis using s by simp
qed

theorem init_stores_then_writes_once_witness:
  "(2 :: size_t) \<noteq> 0 \<and>
   handle_mem (snd (fahren_init good_env (Some 0) FAHREN_MODEL_SEQUENTIAL 2 (Some 0)
       fresh_world)) 0 =
     \<lparr>initialized = 1, layer_count = 2, model_type = FAHREN_MODEL_SEQUENTIAL,
      layers = Some 0\<rparr> \<and>
   layer_mem (snd (fahren_init good_env (Some 0) FAHREN_MODEL_SEQUENTIAL 2 (Some 0)
       fresh_world)) = layer_mem fresh_world \<and>
   length (the (files (snd (fahren_init good_env (Some 0) FAHREN_MODEL_SEQUENTIAL 2 (Some 0)
       fresh_world)) ''fahren_initial_model.bin'')) = 88"
proof -
  let ?w1 = "store_handle 0 FAHREN_MODEL_SEQUENTIAL 2 (Some 0) fresh_world"
  let ?r = "fahren_write_random_weights good_env (Some 0) (Some ''fahren_initial_model.bin'') ?w1"
  have n: "(2 :: size_t) \<noteq> 0" by simp
  note T = init_stores_then_writes_once [OF n, of good_env 0 FAHREN_MODEL_SEQUENTIAL 0 fresh_world]
  have g: "malloc_ok good_env 0 36 \<and> malloc_ok good_env 1 20 \<and>
     fopen_ok good_env ''fahren_initial_model.bin'' \<and> (\<forall>k n. n \<le> fwrite_items good_env k n)"
    by (simp add: good_env_def)
  note D = two_dense_layers [OF fresh_init_world, of good_env "''fahren_initial_model.bin''"
      "snd ?r"]
  from D g obtain v where "?r = (Returned FAHREN_SUCCESS, v)" by blast
  then have "?r = (Returned FAHREN_SUCCESS, snd ?r)" by simp
  with D have "length (the (files (snd ?r) ''fahren_initial_model.bin''))
      = min 88 (flushed good_env 88)" by blast
  then have l: "length (the (files (snd ?r) ''fahren_initial_model.bin'')) = 88"
    by (simp add: good_env_def)
  let ?i = "fahren_init good_env (Some 0) FAHREN_MODEL_SEQUENTIAL 2 (Some 0) fresh_world"
  from T have t1: "snd ?i = snd ?r"
    and t2: "handle_mem (snd ?i) = (handle_mem fresh_world)
       (0 := \<lparr>initialized = 1, layer_count = 2, model_type = FAHREN_MODEL_SEQUENTIAL,
               layers = Some 0\<rparr>)"
    and t3: "layer_mem (snd ?i) = layer_mem fresh_world"
    by blast+
  from t2 have h: "handle_mem (snd ?i) 0 =
     \<lparr>initialized = 1, layer_count = 2, model_type = FAHREN_MODEL_SEQUENTIAL,
      layers = Some 0\<rparr>" by simp
  from l have l': "length (the (files (snd ?i) ''fahren_initial_model.bin'')) = 88"
    by (simp only: t1)
  from n h t3 l' show ?thesis by blast
qed

subsection \<open>C9: the status of the initial write is discarded\<close>

text \<open>When the write of the initial weights returns a status, whatever it is,
  \<^verbatim>\<open>fahren_init\<close> returns \<^verbatim>\<open>FAHREN_SUCCESS\<close> with the state that write left and the
  handle marked initialized, and it returns no other status for valid arguments; so it
  does with \<^verbatim>\<open>malloc\<close> failing, where the write returns
  \<^verbatim>\<open>FAHREN_ERROR_PROCESSING_FAILED\<close>.\<close>

lemma init_ignores_write_status:
  assumes "n \<noteq> 0"
  shows "(fahren_write_random_weights e (Some c) (Some ''fahren_initial_model.bin'')
           (store_handle c mt n (Some b) w) = (Returned st, w2) \<longrightarrow>
        fahren_init e (Some c) mt n (Some b) w = (Returned FAHREN_SUCCESS, w2) \<and>
        initialized (handle_mem w2 c) = 1) \<and>
     (fst (fahren_init e (Some c) mt n (Some b) w) = Returned st' \<longrightarrow> st' = FAHREN_SUCCESS)"
proof (intro conjI impI)
  assume r: "fahren_write_random_weights e (Some c) (Some ''fahren_initial_model.bin'')
           (store_handle c mt n (Some b) w) = (Returned st, w2)"
  from write_keeps_memory [OF r]
  have "handle_mem w2 = handle_mem (store_handle c mt n (Some b) w)" by simp
  then show "initialized (handle_mem w2 c) = 1" by (simp add: store_handle_def)
  from assms r show "fahren_init e (Some c) mt n (Some b) w = (Returned FAHREN_SUCCESS, w2)"
    by (simp add: fahren_init_valid)
next
  assume "fst (fahren_init e (Some c) mt n (Some b) w) = Returned st'"
  with assms show "st' = FAHREN_SUCCESS"
    by (auto simp: fahren_init_valid split: prod.splits outcome.splits)
qed

lemma init_ignores_failed_malloc:
  "fst (fahren_write_random_weights no_memory_env (Some 0) (Some ''fahren_initial_model.bin'')
     (store_handle 0 FAHREN_MODEL_SEQUENTIAL 2 (Some 0) fresh_world))
     = Returned FAHREN_ERROR_PROCESSING_FAILED \<and>
   fst (fahren_init no_memory_env (Some 0) FAHREN_MODEL_SEQUENTIAL 2 (Some 0) fresh_world)
     = Returned FAHREN_SUCCESS \<and>
   initialized (handle_mem (snd (fahren_init no_memory_env (Some 0) FAHREN_MODEL_SEQUENTIAL 2
     (Some 0) fresh_world)) 0) = 1"
proof -
  have n: "(2 :: size_t) \<noteq> 0" by simp
  from init_ignores_write_status [OF n, of no_memory_env 0 FAHREN_MODEL_SEQUENTIAL 0
      fresh_world FAHREN_ERROR_PROCESSING_FAILED
      "store_handle 0 FAHREN_MODEL_SEQUENTIAL 2 (Some 0) fresh_world"]
    fresh_init_no_memory
  have "fahren_init no_memory_env (Some 0) FAHREN_MODEL_SEQUENTIAL 2 (Some 0) fresh_world
      = (Returned FAHREN_SUCCESS, store_handle 0 FAHREN_MODEL_SEQUENTIAL 2 (Some 0) fresh_world)"
    and "initialized (handle_mem (store_handle 0 FAHREN_MODEL_SEQUENTIAL 2 (Some 0)
      fresh_world) 0) = 1"
    by blast+
  with fresh_init_no_memory show ?thesis by simp
qed

text \<open>
  Claim C9. With valid arguments \<^verbatim>\<open>fahren_init\<close> always returns \<^verbatim>\<open>FAHREN_SUCCESS\<close>,
  whatever the outcome of the write of the initial weights it triggers: the status of
  that write is discarded, and the handle stays marked initialized when the write fails.

  The status is discarded (\<open>init_ignores_write_status\<close>), but the write need not come
  back with one. For a non-null handle and the five Dense layers of density \<open>2 ^ 30\<close>,
  valid arguments, the write that \<^verbatim>\<open>fahren_init\<close> triggers counts \<open>2 ^ 62 + 2 ^ 30\<close>
  weights, gets a buffer of \<open>2 ^ 30\<close> floats and stores past its end: \<^verbatim>\<open>fahren_init\<close>
  does not return \<^verbatim>\<open>FAHREN_SUCCESS\<close>, its behaviour is undefined. It is the unchecked
  \<^verbatim>\<open>total * sizeof(float)\<close> of claim C10, reached through \<^verbatim>\<open>fahren_init\<close>.
\<close>

theorem init_runs_into_the_overrun:
  "0 < (5 :: size_t) \<and>
   initialized (handle_mem big_fresh_world 0) = 0 \<and>
   layer_array (store_handle 0 FAHREN_MODEL_SEQUENTIAL 5 (Some 0) big_fresh_world)
      (handle_mem (store_handle 0 FAHREN_MODEL_SEQUENTIAL 5 (Some 0) big_fresh_world) 0)
     = Some [big_layer0, big_layer, big_layer, big_layer, big_layer] \<and>
   count_params (layer_mem big_fresh_world)
      [big_layer0, big_layer, big_layer, big_layer, big_layer]
     = Inr (4611686019501129728, 5368709120) \<and>
   length (alloc_floats 4611686019501129728) = 1073741824 \<and>
   fahren_write_random_weights good_env (Some 0) (Some ''fahren_initial_model.bin'')
      (store_handle 0 FAHREN_MODEL_SEQUENTIAL 5 (Some 0) big_fresh_world)
     = (Undefined_Behaviour, store_handle 0 FAHREN_MODEL_SEQUENTIAL 5 (Some 0) big_fresh_world) \<and>
   fahren_init good_env (Some 0) FAHREN_MODEL_SEQUENTIAL 5 (Some 0) big_fresh_world
     = (Undefined_Behaviour, store_handle 0 FAHREN_MODEL_SEQUENTIAL 5 (Some 0) big_fresh_world)"
proof -
  let ?w1 = "store_handle 0 FAHREN_MODEL_SEQUENTIAL 5 (Some 0) big_fresh_world"
  have lm: "layer_mem ?w1 = layer_mem big_world" "layer_mem big_fresh_world = layer_mem big_world"
    by (simp_all add: store_handle_def big_fresh_world_def)
  have hm: "handle_mem ?w1 0 = handle_mem big_world 0"
    by (simp add: store_handle_def big_fresh_world_def big_world_def)
  have i0: "initialized (handle_mem big_fresh_world 0) = 0"
    by (simp add: big_fresh_world_def)
  have ini: "initialized (handle_mem ?w1 0) \<noteq> 0" by (simp add: hm big_world_def)
  have la: "layer_array ?w1 (handle_mem ?w1 0)
      = Some [big_layer0, big_layer, big_layer, big_layer, big_layer]"
    by (simp add: layer_array_def store_handle_def big_fresh_world_def big_world_def upt_5)
  have cn: "count_params (layer_mem ?w1)
      [big_layer0, big_layer, big_layer, big_layer, big_layer]
     = Inr (4611686019501129728, 5368709120)"
    using big_cnt by (simp add: lm)
  have wr: "fahren_write_random_weights good_env (Some 0) (Some ''fahren_initial_model.bin'') ?w1
     = (Undefined_Behaviour, ?w1)"
    using ini la cn big_fill [of good_env "rng_pos ?w1"]
    by (simp add: fahren_write_random_weights_def good_env_def lm)
  have "fahren_init good_env (Some 0) FAHREN_MODEL_SEQUENTIAL 5 (Some 0) big_fresh_world
     = (Undefined_Behaviour, ?w1)"
    using wr by (simp add: fahren_init_valid)
  with i0 la cn wr big_alloc show ?thesis by (simp add: lm)
qed

subsection \<open>C10: the fill pass and the bounds of the buffers\<close>

text \<open>
  Claim C10. Whenever the counting pass returns totals, the fill pass stores exactly that
  many weights and biases, with indices that end at the totals, so that every store is
  inside its buffer and no cell is left unfilled.

  Below \<open>2 ^ 62\<close> floats per buffer this holds (\<open>fill_pass_complete\<close>). From
  \<open>2 ^ 62\<close> on, \<^verbatim>\<open>total * sizeof(float)\<close> wraps and the buffer is shorter than the
  total: for the five Dense layers of density \<open>2 ^ 30\<close> the counting pass returns
  \<open>2 ^ 62 + 2 ^ 30\<close> weights, \<^verbatim>\<open>malloc\<close> is asked for \<open>2 ^ 32\<close> bytes, room for
  \<open>2 ^ 30\<close> floats, and the fill pass stores past the end of the buffer.
\<close>

theorem fill_overruns_weight_buffer:
  "0 < sint (density big_layer0) \<and> 0 < sint (density big_layer) \<and>
   layer_array big_world (handle_mem big_world 0)
     = Some [big_layer0, big_layer, big_layer, big_layer, big_layer] \<and>
   count_params (layer_mem big_world) [big_layer0, big_layer, big_layer, big_layer, big_layer]
     = Inr (4611686019501129728, 5368709120) \<and>
   (4611686019501129728 :: size_t) * sizeof_float = 4294967296 \<and>
   length (alloc_floats 4611686019501129728) = 1073741824 \<and>
   fahren_write_random_weights good_env (Some 0) (Some ''model.bin'') big_world
     = (Undefined_Behaviour, big_world)"
proof -
  have "fahren_write_random_weights good_env (Some 0) (Some ''model.bin'') big_world
     = (Undefined_Behaviour, big_world)"
    using big_la big_cnt big_fill [of good_env "rng_pos big_world"]
    by (simp add: fahren_write_random_weights_def good_env_def)
       (simp add: big_world_def)
  moreover have "0 < sint (density big_layer0)" "0 < sint (density big_layer)"
    by (simp_all add: big_layer0_def big_layer_def)
  moreover have "(4611686019501129728 :: size_t) * sizeof_float = 4294967296"
    by (simp add: sizeof_float_def)
  ultimately show ?thesis using big_la big_cnt big_alloc by simp
qed

end
